theory Spec2Isabelle
  imports Main
begin

section \<open>Strings\<close>

text \<open>
  Strings are lists of characters. \<open>String.prototype.toLowerCase\<close> is modelled on
  the ASCII range: the letters \<open>A\<close> to \<open>Z\<close> (codes 65 to 90) are moved to
  \<open>a\<close> to \<open>z\<close>, every other character is kept. \<open>String.prototype.trim\<close>
  removes the ASCII white space (space, tab, line feed, vertical tab, form feed, carriage
  return) at both ends.
\<close>

definition lower_char :: "char \<Rightarrow> char" where
  "lower_char c =
     (let n = (of_char c :: nat) in if 65 \<le> n \<and> n \<le> 90 then char_of (n + 32) else c)"

definition toLowerCase :: "string \<Rightarrow> string" where
  "toLowerCase s = map lower_char s"

definition is_upper :: "char \<Rightarrow> bool" where
  "is_upper c = (65 \<le> (of_char c :: nat) \<and> (of_char c :: nat) \<le> 90)"

definition is_space :: "char \<Rightarrow> bool" where
  "is_space c = ((of_char c :: nat) = 32 \<or> (9 \<le> (of_char c :: nat) \<and> (of_char c :: nat) \<le> 13))"

definition trim :: "string \<Rightarrow> string" where
  "trim s = rev (dropWhile is_space (rev (dropWhile is_space s)))"

text \<open>The JavaScript idiom \<open>s || d\<close> on a string and on an optional string: the
  empty string and \<open>undefined\<close> are falsy.\<close>

definition orElse :: "string \<Rightarrow> string \<Rightarrow> string" where
  "orElse s d = (if s = [] then d else s)"

definition orElseOpt :: "string option \<Rightarrow> string \<Rightarrow> string" where
  "orElseOpt s d = (case s of None \<Rightarrow> d | Some v \<Rightarrow> orElse v d)"

section \<open>Data model (types.ts)\<close>

text \<open>
  JavaScript numbers are modelled by unbounded integers: the model is exact for integral
  amounts in the safe range, and says nothing about \<open>NaN\<close>, infinities and rounding.
  Optional fields are options. The field \<open>id\<close> is called \<open>ident\<close>, since
  \<open>id\<close> is the identity function of HOL; the fields of the other structures carry
  a prefix, since a field name is a constant of the theory.
\<close>

datatype StockStatus = InStock | LowStock | OutOfStock

record Ingredient =
  ident :: string
  name :: string
  amount :: int
  unit :: string
  category :: "string option"
  untrackedAmount :: "bool option"
  stockStatus :: "StockStatus option"

record RecipeIngredient = Ingredient +
  optional :: "bool option"

record Recipe =
  recipe_id :: string
  recipe_name :: string
  description :: string
  ingredients :: "RecipeIngredient list"
  instructions :: string
  tags :: "string list"
  prepTime :: "int option"

record AppState =
  recipes :: "Recipe list"
  inventory :: "Ingredient list"
  customTags :: "string list"
  categories :: "string list"

section \<open>Shopping list (ShoppingList.tsx)\<close>

text \<open>An entry of the meal plan \<open>selectedRecipes\<close>, a value of the dictionary
  \<open>needed\<close>, and a line of the list \<open>finalItems\<close>.\<close>

record Plan =
  recipeId :: string
  count :: int

record Needed =
  need_amount :: int
  need_unit :: string
  need_category :: string

record ShoppingItem =
  item_name :: string
  item_amount :: int
  item_unit :: string
  item_category :: string

text \<open>
  The dictionary \<open>needed\<close> is an association list in insertion order with one pair
  for each key, which is the order of \<open>Object.entries\<close> for keys that are not
  array indices. The model is about the dictionary's own keys: a name such as
  \<open>constructor\<close>, which the empty object inherits from its prototype, is outside it.
  The body of the inner \<open>forEach\<close>: create the entry of the key when it is missing,
  then add \<open>ing.amount * plan.count\<close> to its amount.
\<close>

definition addAmount :: "string \<Rightarrow> int \<Rightarrow> (string \<times> Needed) list \<Rightarrow> (string \<times> Needed) list" where
  "addAmount key x needed =
     map (\<lambda>(k, d). if k = key then (k, d\<lparr>need_amount := need_amount d + x\<rparr>) else (k, d)) needed"

definition addNeeded :: "int \<Rightarrow> (string \<times> Needed) list \<Rightarrow> RecipeIngredient \<Rightarrow> (string \<times> Needed) list" where
  "addNeeded cnt needed ing =
     (let key = toLowerCase (name ing);
          needed1 = (case map_of needed key of
                       None \<Rightarrow> needed @ [(key, \<lparr>need_amount = 0, need_unit = unit ing,
                                             need_category = orElseOpt (category ing) ''Other''\<rparr>)]
                     | Some _ \<Rightarrow> needed)
      in addAmount key (amount ing * cnt) needed1)"

definition addPlan :: "Recipe list \<Rightarrow> (string \<times> Needed) list \<Rightarrow> Plan \<Rightarrow> (string \<times> Needed) list" where
  "addPlan rs needed plan =
     (case find (\<lambda>r. recipe_id r = recipeId plan) rs of
        None \<Rightarrow> needed
      | Some recipe \<Rightarrow> foldl (addNeeded (count plan)) needed (ingredients recipe))"

definition aggregate :: "Recipe list \<Rightarrow> Plan list \<Rightarrow> (string \<times> Needed) list" where
  "aggregate rs selectedRecipes = foldl (addPlan rs) [] selectedRecipes"

text \<open>The body of the loop over \<open>Object.entries(needed)\<close>.\<close>

definition excluded :: "Ingredient option \<Rightarrow> bool" where
  "excluded inStock =
     (case inStock of None \<Rightarrow> False
      | Some i \<Rightarrow> untrackedAmount i = Some True \<and> stockStatus i \<noteq> Some OutOfStock)"

definition stockAmount :: "Ingredient option \<Rightarrow> int" where
  "stockAmount inStock = (case inStock of None \<Rightarrow> 0 | Some i \<Rightarrow> amount i)"

definition inStockOf :: "Ingredient list \<Rightarrow> string \<Rightarrow> Ingredient option" where
  "inStockOf inven nm = find (\<lambda>i. toLowerCase (name i) = nm) inven"

definition netEntry :: "Ingredient list \<Rightarrow> ShoppingItem list \<Rightarrow> string \<times> Needed \<Rightarrow> ShoppingItem list" where
  "netEntry inven finalItems e =
     (case e of (nm, d) \<Rightarrow>
        let inStock = inStockOf inven nm in
        if excluded inStock then finalItems
        else
          let finalAmount = max 0 (need_amount d - stockAmount inStock) in
          if finalAmount > 0
          then finalItems @ [\<lparr>item_name = nm, item_amount = finalAmount,
                               item_unit = need_unit d, item_category = need_category d\<rparr>]
          else finalItems)"

definition netted :: "Ingredient list \<Rightarrow> (string \<times> Needed) list \<Rightarrow> ShoppingItem list" where
  "netted inven needed = foldl (netEntry inven) [] needed"

text \<open>The body of the loop over the inventory that adds the replenishment lines.\<close>

definition replenishLine :: "Ingredient \<Rightarrow> ShoppingItem" where
  "replenishLine item =
     \<lparr>item_name = name item, item_amount = 1, item_unit = orElse (unit item) ''unit'',
      item_category = orElseOpt (category item) ''Other''\<rparr>"

definition pushIfAbsent :: "ShoppingItem list \<Rightarrow> Ingredient \<Rightarrow> ShoppingItem list" where
  "pushIfAbsent finalItems item =
     (case find (\<lambda>i. toLowerCase (item_name i) = toLowerCase (name item)) finalItems of
        None \<Rightarrow> finalItems @ [replenishLine item]
      | Some _ \<Rightarrow> finalItems)"

definition replenish :: "string set \<Rightarrow> ShoppingItem list \<Rightarrow> Ingredient \<Rightarrow> ShoppingItem list" where
  "replenish replenishItems finalItems item =
     (if stockStatus item = Some OutOfStock then pushIfAbsent finalItems item
      else if stockStatus item = Some LowStock \<and> ident item \<in> replenishItems
      then pushIfAbsent finalItems item
      else finalItems)"

definition shoppingList ::
  "Plan list \<Rightarrow> Recipe list \<Rightarrow> Ingredient list \<Rightarrow> string set \<Rightarrow> ShoppingItem list" where
  "shoppingList selectedRecipes rs inven replenishItems =
     foldl (replenish replenishItems) (netted inven (aggregate rs selectedRecipes)) inven"


text \<open>
  The quantities of the specification: the demand of a key is the sum, over the planned
  recipes and their ingredients of that name, of the amount times the multiplier; the
  amount still to buy is the demand minus the amount in stock, floored at zero. An
  inventory item is selected by the replenishment stage when it is out of stock, or low
  on stock and flagged.
\<close>

definition recipeDemand :: "string \<Rightarrow> int \<Rightarrow> RecipeIngredient list \<Rightarrow> int" where
  "recipeDemand k cnt ings =
     (\<Sum>ing\<leftarrow>ings. if toLowerCase (name ing) = k then amount ing * cnt else 0)"

definition planDemand :: "Recipe list \<Rightarrow> string \<Rightarrow> Plan \<Rightarrow> int" where
  "planDemand rs k plan =
     (case find (\<lambda>r. recipe_id r = recipeId plan) rs of
        None \<Rightarrow> 0
      | Some recipe \<Rightarrow> recipeDemand k (count plan) (ingredients recipe))"

definition totalDemand :: "Recipe list \<Rightarrow> Plan list \<Rightarrow> string \<Rightarrow> int" where
  "totalDemand rs selectedRecipes k = (\<Sum>plan\<leftarrow>selectedRecipes. planDemand rs k plan)"

definition remainder :: "Recipe list \<Rightarrow> Plan list \<Rightarrow> Ingredient list \<Rightarrow> string \<Rightarrow> int" where
  "remainder rs selectedRecipes inven k =
     max 0 (totalDemand rs selectedRecipes k - stockAmount (inStockOf inven k))"

definition demandOf :: "(string \<times> Needed) list \<Rightarrow> string \<Rightarrow> int" where
  "demandOf needed k = (case map_of needed k of None \<Rightarrow> 0 | Some d \<Rightarrow> need_amount d)"

definition wf_needed :: "(string \<times> Needed) list \<Rightarrow> bool" where
  "wf_needed n = (distinct (map fst n) \<and> list_all (\<lambda>k. toLowerCase k = k) (map fst n))"

definition wanted :: "string set \<Rightarrow> Ingredient \<Rightarrow> bool" where
  "wanted replenishItems item =
     (stockStatus item = Some OutOfStock \<or>
      (stockStatus item = Some LowStock \<and> ident item \<in> replenishItems))"

definition sameName :: "ShoppingItem \<Rightarrow> Ingredient \<Rightarrow> bool" where
  "sameName e item = (toLowerCase (item_name e) = toLowerCase (name item))"

section \<open>Inventory (InventoryManager.tsx)\<close>

text \<open>The form state \<open>newItem\<close>, \<open>Array.prototype.findIndex\<close> (\<open>None\<close> for
  \<open>-1\<close>), the update of the matched item, and the handler \<open>addItem\<close>. The handler
  returns the inventory that the component holds afterwards: the early return leaves it
  as it is. The identifier made by \<open>uuidv4()\<close> is a parameter.\<close>

record NewItem =
  new_name :: string
  new_amount :: int
  new_unit :: string
  new_category :: string
  new_untrackedAmount :: bool
  new_stockStatus :: StockStatus

fun findIndex :: "('a \<Rightarrow> bool) \<Rightarrow> 'a list \<Rightarrow> nat option" where
  "findIndex P [] = None"
| "findIndex P (x # xs) = (if P x then Some 0 else map_option Suc (findIndex P xs))"

definition mergeItem :: "NewItem \<Rightarrow> Ingredient \<Rightarrow> Ingredient" where
  "mergeItem newItem existing =
     (if new_untrackedAmount newItem
      then existing\<lparr>untrackedAmount := Some True, stockStatus := Some (new_stockStatus newItem)\<rparr>
      else if untrackedAmount existing = Some True
      then existing\<lparr>untrackedAmount := Some False, amount := new_amount newItem\<rparr>
      else existing\<lparr>amount := amount existing + new_amount newItem\<rparr>)"

definition created :: "string \<Rightarrow> NewItem \<Rightarrow> Ingredient" where
  "created uuid newItem =
     \<lparr>ident = uuid, name = new_name newItem, amount = new_amount newItem,
      unit = new_unit newItem, category = Some (new_category newItem),
      untrackedAmount = Some (new_untrackedAmount newItem),
      stockStatus = Some (new_stockStatus newItem)\<rparr>"

definition matchIndex :: "Ingredient list \<Rightarrow> NewItem \<Rightarrow> nat option" where
  "matchIndex inven newItem =
     findIndex (\<lambda>i. toLowerCase (name i) = toLowerCase (new_name newItem)) inven"

definition addItem :: "string \<Rightarrow> Ingredient list \<Rightarrow> NewItem \<Rightarrow> Ingredient list" where
  "addItem uuid inven newItem =
     (if trim (new_name newItem) = [] then inven
      else case matchIndex inven newItem of
        Some existingIndex \<Rightarrow>
          inven[existingIndex := mergeItem newItem (inven ! existingIndex)]
      | None \<Rightarrow> inven @ [created uuid newItem])"

section \<open>Cookability (RecipeCard.tsx)\<close>

definition checkReq :: "Ingredient list \<Rightarrow> string list \<Rightarrow> RecipeIngredient \<Rightarrow> string list" where
  "checkReq inven missing req =
     (case find (\<lambda>i. toLowerCase (name i) = toLowerCase (name req)) inven of
        None \<Rightarrow> (if optional req \<noteq> Some True then missing @ [name req] else missing)
      | Some inStock \<Rightarrow>
          (if amount inStock < amount req
           then (if optional req \<noteq> Some True then missing @ [name req] else missing)
           else missing))"

definition checkCookability :: "Recipe \<Rightarrow> Ingredient list \<Rightarrow> string list" where
  "checkCookability recipe inven = foldl (checkReq inven) [] (ingredients recipe)"

definition canCook :: "Recipe \<Rightarrow> Ingredient list \<Rightarrow> bool" where
  "canCook recipe inven = (length (checkCookability recipe inven) = 0)"

text \<open>The specification of the check, in its own words: an ingredient is missing when
  no inventory item matches its name, or the matched amount is below the required one;
  the result lists the names of the missing ingredients that are not optional.\<close>

definition isMissing :: "Ingredient list \<Rightarrow> RecipeIngredient \<Rightarrow> bool" where
  "isMissing inven req =
     (case find (\<lambda>i. toLowerCase (name i) = toLowerCase (name req)) inven of
        None \<Rightarrow> True
      | Some inStock \<Rightarrow> amount inStock < amount req)"

definition missingNames :: "Recipe \<Rightarrow> Ingredient list \<Rightarrow> string list" where
  "missingNames recipe inven =
     map name (filter (\<lambda>req. optional req \<noteq> Some True \<and> isMissing inven req) (ingredients recipe))"

section \<open>Settings (SettingsManager.tsx)\<close>

text \<open>\<open>removeCategory\<close> returns the text of the alert, if one is shown, and the state
  that the application holds afterwards.\<close>

definition reassign :: "string \<Rightarrow> 'a Ingredient_scheme \<Rightarrow> 'a Ingredient_scheme" where
  "reassign c i = (if category i = Some c then i\<lparr>category := Some ''Other''\<rparr> else i)"

definition removeCategory :: "AppState \<Rightarrow> string \<Rightarrow> string option \<times> AppState" where
  "removeCategory state c =
     (if length (categories state) \<le> 1
      then (Some ''You must have at least one category.'', state)
      else (None,
            state\<lparr>categories := filter (\<lambda>x. x \<noteq> c) (categories state),
                  recipes := map (\<lambda>r. r\<lparr>ingredients := map (reassign c) (ingredients r)\<rparr>)
                               (recipes state),
                  inventory := map (reassign c) (inventory state)\<rparr>))"

section \<open>Persistence (storage.ts)\<close>

text \<open>
  A parsed JSON value; the exceptions of the \<open>try\<close> block; the aggregate that the
  loader returns, whose fields are whatever values the document holds. \<open>JSON.parse\<close>
  is a parameter \<open>parse\<close> of the loader. Reading a property of \<open>null\<close> throws a
  \<open>TypeError\<close>; a property that a value does not have is \<open>undefined\<close>.
\<close>

datatype json = JNull | JBool bool | JNum int | JStr string | JArr "json list"
  | JObj "(string \<times> json) list"

datatype js_error = SyntaxError | TypeError

record Loaded =
  l_recipes :: json
  l_inventory :: json
  l_customTags :: json
  l_categories :: json

fun truthy :: "json \<Rightarrow> bool" where
  "truthy JNull = False"
| "truthy (JBool b) = b"
| "truthy (JNum n) = (n \<noteq> 0)"
| "truthy (JStr s) = (s \<noteq> [])"
| "truthy (JArr _) = True"
| "truthy (JObj _) = True"

fun getProp :: "json \<Rightarrow> string \<Rightarrow> js_error + json option" where
  "getProp JNull k = Inl TypeError"
| "getProp (JObj kvs) k = Inr (map_of kvs k)"
| "getProp _ k = Inr None"

definition orDefault :: "json option \<Rightarrow> json \<Rightarrow> json" where
  "orDefault v d = (case v of None \<Rightarrow> d | Some x \<Rightarrow> if truthy x then x else d)"

definition DEFAULT_TAGS :: "string list" where
  "DEFAULT_TAGS = [''Breakfast'', ''Lunch'', ''Dinner'', ''Snack'', ''Dessert'', ''Vegetarian'',
     ''Vegan'', ''Quick'']"

definition DEFAULT_CATEGORIES :: "string list" where
  "DEFAULT_CATEGORIES = [''Produce'', ''Dairy'', ''Meat'', ''Bakery'', ''Frozen'', ''Pantry'',
     ''Beverages'', ''Household'', ''Other'']"

definition defaultLoaded :: Loaded where
  "defaultLoaded =
     \<lparr>l_recipes = JArr [], l_inventory = JArr [],
      l_customTags = JArr (map JStr DEFAULT_TAGS),
      l_categories = JArr (map JStr DEFAULT_CATEGORIES)\<rparr>"

definition tryParse :: "(string \<Rightarrow> js_error + json) \<Rightarrow> string \<Rightarrow> js_error + Loaded" where
  "tryParse parse data =
     (case parse data of Inl e \<Rightarrow> Inl e | Inr parsed \<Rightarrow>
     (case getProp parsed ''recipes'' of Inl e \<Rightarrow> Inl e | Inr r \<Rightarrow>
     (case getProp parsed ''inventory'' of Inl e \<Rightarrow> Inl e | Inr i \<Rightarrow>
     (case getProp parsed ''customTags'' of Inl e \<Rightarrow> Inl e | Inr t \<Rightarrow>
     (case getProp parsed ''categories'' of Inl e \<Rightarrow> Inl e | Inr c \<Rightarrow>
        Inr \<lparr>l_recipes = orDefault r (JArr []), l_inventory = orDefault i (JArr []),
             l_customTags = orDefault t (JArr (map JStr DEFAULT_TAGS)),
             l_categories = orDefault c (JArr (map JStr DEFAULT_CATEGORIES))\<rparr>)))))"

definition loadFromLocalStorage ::
  "(string \<Rightarrow> js_error + json) \<Rightarrow> string option \<Rightarrow> js_error + Loaded" where
  "loadFromLocalStorage parse stored =
     (case stored of
        None \<Rightarrow> Inr defaultLoaded
      | Some data \<Rightarrow>
          if data = [] then Inr defaultLoaded
          else (case tryParse parse data of
                  Inl e \<Rightarrow> Inr defaultLoaded
                | Inr loaded \<Rightarrow> Inr loaded))"

text \<open>The specification of the loader, in its own words: a field of the parsed document
  is present when the document is an object that holds a truthy value under the field's
  key; a field that is not present takes its own default.\<close>

definition present :: "json \<Rightarrow> string \<Rightarrow> json option" where
  "present v k =
     (case v of
        JObj kvs \<Rightarrow> (case map_of kvs k of None \<Rightarrow> None
                     | Some x \<Rightarrow> if truthy x then Some x else None)
      | _ \<Rightarrow> None)"

definition fieldOr :: "json \<Rightarrow> string \<Rightarrow> json \<Rightarrow> json" where
  "fieldOr v k d = (case present v k of None \<Rightarrow> d | Some x \<Rightarrow> x)"

section \<open>Start of the application (App.tsx)\<close>

definition pizza :: Recipe where
  "pizza =
     \<lparr>recipe_id = ''1'', recipe_name = ''Classic Margherita Pizza'',
      description = ''A simple yet delicious Italian classic with fresh basil and mozzarella.'',
      ingredients =
        [\<lparr>ident = ''i1'', name = ''Pizza Dough'', amount = 1, unit = ''pcs'',
          category = Some ''Bakery'', untrackedAmount = None, stockStatus = None, optional = None\<rparr>,
         \<lparr>ident = ''i2'', name = ''Tomato Sauce'', amount = 100, unit = ''ml'',
          category = Some ''Pantry'', untrackedAmount = None, stockStatus = None, optional = None\<rparr>,
         \<lparr>ident = ''i3'', name = ''Mozzarella'', amount = 150, unit = ''g'',
          category = Some ''Dairy'', untrackedAmount = None, stockStatus = None, optional = None\<rparr>,
         \<lparr>ident = ''i4'', name = ''Fresh Basil'', amount = 5, unit = ''leaves'',
          category = Some ''Produce'', untrackedAmount = None, stockStatus = None, optional = None\<rparr>],
      instructions = ''1. Preheat oven to 250'' @ [CHR 0xB0] @ ''C.\<newline>2. Roll out dough.\<newline>3. Spread sauce.\<newline>4. Add cheese.\<newline>5. Bake for 10-12 mins.\<newline>6. Add fresh basil.'',
      tags = [''Dinner'', ''Vegetarian''], prepTime = Some 20\<rparr>"

definition toast :: Recipe where
  "toast =
     \<lparr>recipe_id = ''2'', recipe_name = ''Avocado Toast'',
      description = ''The perfect healthy breakfast or snack.'',
      ingredients =
        [\<lparr>ident = ''i5'', name = ''Sourdough Bread'', amount = 2, unit = ''slices'',
          category = Some ''Bakery'', untrackedAmount = None, stockStatus = None, optional = None\<rparr>,
         \<lparr>ident = ''i6'', name = ''Avocado'', amount = 1, unit = ''pcs'',
          category = Some ''Produce'', untrackedAmount = None, stockStatus = None, optional = None\<rparr>,
         \<lparr>ident = ''i7'', name = ''Red Pepper Flakes'', amount = 1, unit = ''tsp'',
          category = Some ''Pantry'', untrackedAmount = None, stockStatus = None, optional = None\<rparr>],
      instructions = ''1. Toast the bread.\<newline>2. Mash avocado with salt and pepper.\<newline>3. Spread on toast.\<newline>4. Sprinkle red pepper flakes.'',
      tags = [''Breakfast'', ''Quick'', ''Vegan''], prepTime = Some 5\<rparr>"

definition INITIAL_DATA :: AppState where
  "INITIAL_DATA =
     \<lparr>recipes = [pizza, toast],
      inventory =
        [\<lparr>ident = ''inv1'', name = ''Sourdough Bread'', amount = 4, unit = ''slices'',
          category = Some ''Bakery'', untrackedAmount = None, stockStatus = None\<rparr>,
         \<lparr>ident = ''inv2'', name = ''Avocado'', amount = 2, unit = ''pcs'',
          category = Some ''Produce'', untrackedAmount = None, stockStatus = None\<rparr>],
      customTags = [''Breakfast'', ''Lunch'', ''Dinner'', ''Snack'', ''Dessert'', ''Vegetarian'',
        ''Vegan'', ''Quick''],
      categories = [''Produce'', ''Dairy'', ''Meat'', ''Bakery'', ''Frozen'', ''Pantry'',
        ''Beverages'', ''Household'', ''Other'']\<rparr>"

definition initialState :: "AppState \<Rightarrow> AppState" where
  "initialState saved = (if length (recipes saved) > 0 then saved else INITIAL_DATA)"

section \<open>Example scenarios\<close>

text \<open>The scenario of the specification: the pizza planned twice against 50 ml of
  tracked tomato sauce.\<close>

definition pizzaPlan :: "Plan list" where
  "pizzaPlan = [\<lparr>recipeId = ''1'', count = 2\<rparr>]"

definition sauceStock :: "Ingredient list" where
  "sauceStock =
     [\<lparr>ident = ''inv3'', name = ''Tomato Sauce'', amount = 50, unit = ''ml'',
       category = Some ''Pantry'', untrackedAmount = Some False, stockStatus = None\<rparr>]"

text \<open>The avocado toast planned three times; the avocado of the inventory, untracked,
  low on stock or in stock.\<close>

definition toastPlan :: "Plan list" where
  "toastPlan = [\<lparr>recipeId = ''2'', count = 3\<rparr>]"

definition avocadoLow :: Ingredient where
  "avocadoLow =
     \<lparr>ident = ''inv2'', name = ''Avocado'', amount = 2, unit = ''pcs'',
      category = Some ''Produce'', untrackedAmount = Some True, stockStatus = Some LowStock\<rparr>"

definition avocadoIn :: Ingredient where
  "avocadoIn =
     \<lparr>ident = ''inv2'', name = ''Avocado'', amount = 2, unit = ''pcs'',
      category = Some ''Produce'', untrackedAmount = Some True, stockStatus = Some InStock\<rparr>"

text \<open>Two inventory items of one name, both out of stock, and an item out of stock
  whose unit is the empty string.\<close>

definition saltA :: Ingredient where
  "saltA =
     \<lparr>ident = ''a'', name = ''Salt'', amount = 0, unit = ''kg'',
      category = Some ''Pantry'', untrackedAmount = Some True, stockStatus = Some OutOfStock\<rparr>"

definition saltB :: Ingredient where
  "saltB =
     \<lparr>ident = ''b'', name = ''salt'', amount = 0, unit = ''g'',
      category = Some ''Household'', untrackedAmount = Some True, stockStatus = Some OutOfStock\<rparr>"

definition pepper :: Ingredient where
  "pepper =
     \<lparr>ident = ''c'', name = ''Pepper'', amount = 0, unit = [],
      category = Some ''Pantry'', untrackedAmount = Some True, stockStatus = Some OutOfStock\<rparr>"

text \<open>The avocado toast planned four times, against two tracked avocados marked low on
  stock.\<close>

definition toastPlan4 :: "Plan list" where
  "toastPlan4 = [\<lparr>recipeId = ''2'', count = 4\<rparr>]"

definition avocadoTracked :: Ingredient where
  "avocadoTracked =
     \<lparr>ident = ''inv2'', name = ''Avocado'', amount = 2, unit = ''pcs'',
      category = Some ''Produce'', untrackedAmount = Some False, stockStatus = Some LowStock\<rparr>"

text \<open>The form of the inventory page as it is before anything is typed, and a form filled
  with three tracked avocados.\<close>

definition emptyForm :: NewItem where
  "emptyForm =
     \<lparr>new_name = '''', new_amount = 0, new_unit = ''pcs'', new_category = ''Other'',
      new_untrackedAmount = True, new_stockStatus = InStock\<rparr>"

definition avocadoForm :: NewItem where
  "avocadoForm =
     \<lparr>new_name = ''avocado'', new_amount = 3, new_unit = ''pcs'', new_category = ''Produce'',
      new_untrackedAmount = False, new_stockStatus = InStock\<rparr>"

text \<open>An untracked avocado marked in stock whose numeric amount is zero.\<close>

definition avocadoZero :: Ingredient where
  "avocadoZero =
     \<lparr>ident = ''inv2'', name = ''Avocado'', amount = 0, unit = ''pcs'',
      category = Some ''Produce'', untrackedAmount = Some True, stockStatus = Some InStock\<rparr>"

text \<open>A state whose category list repeats one category; a saved state without recipes;
  a stored document with two of the four fields.\<close>

definition twiceDairy :: AppState where
  "twiceDairy = INITIAL_DATA\<lparr>categories := [''Dairy'', ''Dairy'']\<rparr>"

definition noRecipes :: AppState where
  "noRecipes =
     \<lparr>recipes = [], inventory = [saltA], customTags = [''Keto''], categories = [''Spices'']\<rparr>"

definition partialDoc :: json where
  "partialDoc = JObj [(''inventory'', JArr []), (''categories'', JArr [JStr ''Spices''])]"

text \<open>Tomato sauce that is tracked, amply in stock by its amount and marked out of stock;
  a salt that is in stock.\<close>

definition sauceOut :: "Ingredient list" where
  "sauceOut =
     [\<lparr>ident = ''inv3'', name = ''Tomato Sauce'', amount = 500, unit = ''ml'',
       category = Some ''Pantry'', untrackedAmount = Some False,
       stockStatus = Some OutOfStock\<rparr>]"

definition saltIn :: Ingredient where
  "saltIn =
     \<lparr>ident = ''a'', name = ''Salt'', amount = 0, unit = ''kg'',
      category = Some ''Pantry'', untrackedAmount = Some True, stockStatus = Some InStock\<rparr>"

text \<open>The lines of the shopping list that the replenishment stage has added: the list
  without its first part, which is the result of the netting stage.\<close>

definition injected ::
  "Plan list \<Rightarrow> Recipe list \<Rightarrow> Ingredient list \<Rightarrow> string set \<Rightarrow> ShoppingItem list" where
  "injected selectedRecipes rs inven replenishItems =
     drop (length (netted inven (aggregate rs selectedRecipes)))
       (shoppingList selectedRecipes rs inven replenishItems)"

section \<open>Facts about the model\<close>

subsection \<open>Strings\<close>

lemma lower_char_Char:
  "lower_char (Char b0 b1 b2 b3 b4 b5 b6 b7) =
     (if b6 \<and> \<not> b5 \<and> \<not> b7 \<and> (b0 \<or> b1 \<or> b2 \<or> b3 \<or> b4) \<and> \<not> (b4 \<and> b3 \<and> (b2 \<or> (b1 \<and> b0)))
      then Char b0 b1 b2 b3 b4 True b6 b7 else Char b0 b1 b2 b3 b4 b5 b6 b7)"
  by (cases b0; cases b1; cases b2; cases b3; cases b4; cases b5; cases b6; cases b7;
      simp add: lower_char_def char_of_eq_iff)

lemma lower_char_idem: "lower_char (lower_char c) = lower_char c"
  by (cases c) (simp add: lower_char_Char)

lemma toLowerCase_idem: "toLowerCase (toLowerCase s) = toLowerCase s"
  by (simp add: toLowerCase_def lower_char_idem)

lemma lower_char_upper: "is_upper c \<Longrightarrow> lower_char c \<noteq> c"
  by (auto simp: lower_char_def is_upper_def Let_def char_of_eq_iff take_bit_eq_mod)

lemma toLowerCase_upper: "\<exists>c\<in>set s. is_upper c \<Longrightarrow> toLowerCase s \<noteq> s"
proof
  assume ex: "\<exists>c\<in>set s. is_upper c" and eq: "toLowerCase s = s"
  from ex obtain c where c: "c \<in> set s" "is_upper c" by blast
  from eq have "map lower_char s = map (\<lambda>x. x) s" by (simp add: toLowerCase_def)
  then have "lower_char c = c" using c(1) by (simp only: map_eq_conv)
  with lower_char_upper [OF c(2)] show False by simp
qed

subsection \<open>Aggregated demand\<close>

lemma map_of_addAmount:
  "map_of (addAmount key x n) k =
     map_option (\<lambda>d. if k = key then d\<lparr>need_amount := need_amount d + x\<rparr> else d) (map_of n k)"
  by (induction n) (auto simp: addAmount_def)

lemma keys_addAmount: "map fst (addAmount key x n) = map fst n"
  by (induction n) (auto simp: addAmount_def)

lemma demandOf_addNeeded:
  "demandOf (addNeeded cnt n ing) k =
     demandOf n k + (if toLowerCase (name ing) = k then amount ing * cnt else 0)"
  by (auto simp: demandOf_def addNeeded_def Let_def map_of_addAmount split: option.splits)

lemma demandOf_ingredients:
  "demandOf (foldl (addNeeded cnt) n ings) k = demandOf n k + recipeDemand k cnt ings"
  by (induction ings arbitrary: n) (simp_all add: demandOf_addNeeded recipeDemand_def)

lemma demandOf_addPlan: "demandOf (addPlan rs n p) k = demandOf n k + planDemand rs k p"
  by (simp add: addPlan_def planDemand_def demandOf_ingredients split: option.splits)

lemma demandOf_plans:
  "demandOf (foldl (addPlan rs) n ps) k = demandOf n k + totalDemand rs ps k"
  by (induction ps arbitrary: n) (simp_all add: demandOf_addPlan totalDemand_def)

lemma demandOf_aggregate: "demandOf (aggregate rs ps) k = totalDemand rs ps k"
  by (simp add: aggregate_def demandOf_plans) (simp add: demandOf_def)

lemma keys_addNeeded:
  "map fst (addNeeded cnt n ing) =
     (if toLowerCase (name ing) \<in> set (map fst n) then map fst n
      else map fst n @ [toLowerCase (name ing)])"
  by (auto simp: addNeeded_def Let_def keys_addAmount map_of_eq_None_iff
      split: option.splits dest: map_of_SomeD intro: rev_image_eqI)

lemma wf_addNeeded: "wf_needed n \<Longrightarrow> wf_needed (addNeeded cnt n ing)"
  by (auto simp: wf_needed_def keys_addNeeded toLowerCase_idem list_all_iff)

lemma wf_ingredients: "wf_needed n \<Longrightarrow> wf_needed (foldl (addNeeded cnt) n ings)"
  by (induction ings arbitrary: n) (simp_all add: wf_addNeeded)

lemma wf_addPlan: "wf_needed n \<Longrightarrow> wf_needed (addPlan rs n p)"
  by (simp add: addPlan_def wf_ingredients split: option.splits)

lemma wf_plans: "wf_needed n \<Longrightarrow> wf_needed (foldl (addPlan rs) n ps)"
  by (induction ps arbitrary: n) (simp_all add: wf_addPlan)

lemma wf_aggregate: "wf_needed (aggregate rs ps)"
  unfolding aggregate_def by (rule wf_plans) (simp add: wf_needed_def)

lemma aggregate_amount:
  assumes "(k, d) \<in> set (aggregate rs ps)"
  shows "need_amount d = totalDemand rs ps k"
proof -
  have "distinct (map fst (aggregate rs ps))"
    using wf_aggregate by (simp add: wf_needed_def)
  with assms have "map_of (aggregate rs ps) k = Some d" by simp
  then have "demandOf (aggregate rs ps) k = need_amount d" by (simp add: demandOf_def)
  then show ?thesis by (simp add: demandOf_aggregate)
qed


subsection \<open>Netting against the inventory\<close>

lemma netEntry_append: "netEntry inven acc e = acc @ netEntry inven [] e"
  by (cases e) (simp add: netEntry_def Let_def)

lemma foldl_netEntry:
  "foldl (netEntry inven) acc xs = acc @ concat (map (netEntry inven []) xs)"
proof (induction xs arbitrary: acc)
  case Nil
  show ?case by simp
next
  case (Cons x xs)
  show ?case
    using Cons [of "netEntry inven acc x"] netEntry_append [of inven acc x] by simp
qed

lemma in_netEntry:
  "x \<in> set (netEntry inven [] (k, d)) \<longleftrightarrow>
     (\<not> excluded (inStockOf inven k) \<and>
      0 < need_amount d - stockAmount (inStockOf inven k) \<and>
      x = \<lparr>item_name = k, item_amount = need_amount d - stockAmount (inStockOf inven k),
           item_unit = need_unit d, item_category = need_category d\<rparr>)"
  by (auto simp: netEntry_def Let_def max_def)

lemma in_netted:
  "x \<in> set (netted inven needed) \<longleftrightarrow>
     (\<exists>(k, d)\<in>set needed. \<not> excluded (inStockOf inven k) \<and>
        0 < need_amount d - stockAmount (inStockOf inven k) \<and>
        x = \<lparr>item_name = k, item_amount = need_amount d - stockAmount (inStockOf inven k),
             item_unit = need_unit d, item_category = need_category d\<rparr>)"
proof -
  have "x \<in> set (netted inven needed) \<longleftrightarrow> (\<exists>e\<in>set needed. x \<in> set (netEntry inven [] e))"
    by (simp add: netted_def foldl_netEntry [of inven "[]"])
  also have "\<dots> \<longleftrightarrow> (\<exists>(k, d)\<in>set needed. x \<in> set (netEntry inven [] (k, d)))"
    by auto
  finally show ?thesis by (simp only: in_netEntry)
qed

lemma find_SomeD: "find P xs = Some x \<Longrightarrow> x \<in> set xs \<and> P x"
  by (induction xs) (auto split: if_splits)

subsection \<open>Replenishment lines\<close>

lemma replenish_wanted:
  "replenish R fin item = (if wanted R item then pushIfAbsent fin item else fin)"
  by (simp add: replenish_def wanted_def)

lemma pushIfAbsent_cases:
  "pushIfAbsent fin item =
     (if \<exists>e\<in>set fin. sameName e item then fin else fin @ [replenishLine item])"
  by (auto simp: pushIfAbsent_def sameName_def find_None_iff split: option.splits
      dest: find_SomeD)

lemma replenish_ext:
  "\<exists>ext. foldl (replenish R) fin inven = fin @ ext \<and>
     (\<forall>e\<in>set ext. \<exists>item\<in>set inven. wanted R item \<and> e = replenishLine item \<and>
        (\<forall>f\<in>set fin. \<not> sameName f item))"
proof (induction inven arbitrary: fin)
  case Nil
  show ?case by simp
next
  case (Cons item inven)
  obtain ext where ext: "foldl (replenish R) (replenish R fin item) inven = replenish R fin item @ ext"
    "\<forall>e\<in>set ext. \<exists>i\<in>set inven. wanted R i \<and> e = replenishLine i \<and>
        (\<forall>f\<in>set (replenish R fin item). \<not> sameName f i)"
    using Cons [of "replenish R fin item"] by blast
  show ?case
  proof (cases "wanted R item \<and> \<not> (\<exists>e\<in>set fin. sameName e item)")
    case True
    then have r: "replenish R fin item = fin @ [replenishLine item]"
      by (simp add: replenish_wanted pushIfAbsent_cases)
    have "foldl (replenish R) fin (item # inven) = fin @ (replenishLine item # ext)"
      using ext(1) r by simp
    moreover have "\<forall>e\<in>set (replenishLine item # ext). \<exists>i\<in>set (item # inven).
        wanted R i \<and> e = replenishLine i \<and> (\<forall>f\<in>set fin. \<not> sameName f i)"
      using ext(2) True r by auto
    ultimately show ?thesis by blast
  next
    case False
    then have r: "replenish R fin item = fin"
      by (auto simp: replenish_wanted pushIfAbsent_cases)
    have "foldl (replenish R) fin (item # inven) = fin @ ext"
      using ext(1) r by simp
    moreover have "\<forall>e\<in>set ext. \<exists>i\<in>set (item # inven).
        wanted R i \<and> e = replenishLine i \<and> (\<forall>f\<in>set fin. \<not> sameName f i)"
      using ext(2) r by auto
    ultimately show ?thesis by blast
  qed
qed

lemma replenish_mono: "set fin \<subseteq> set (foldl (replenish R) fin inven)"
  using replenish_ext [of R fin inven] by auto

lemma replenish_covers:
  "item \<in> set inven \<Longrightarrow> wanted R item \<Longrightarrow>
     \<exists>e\<in>set (foldl (replenish R) fin inven). sameName e item"
proof (induction inven arbitrary: fin)
  case Nil
  then show ?case by simp
next
  case (Cons i inven)
  show ?case
  proof (cases "i = item")
    case True
    have "\<exists>e\<in>set (replenish R fin item). sameName e item"
      using Cons.prems(2)
      by (auto simp: replenish_wanted pushIfAbsent_cases sameName_def replenishLine_def)
    then show ?thesis
      using True replenish_mono [of "replenish R fin item" R inven] by auto
  next
    case False
    then have "item \<in> set inven" using Cons.prems(1) by simp
    from Cons.IH [OF this Cons.prems(2), of "replenish R fin i"] show ?thesis by simp
  qed
qed

lemma replenish_at:
  assumes "wanted R item"
    and "\<forall>f\<in>set (foldl (replenish R) fin pre). \<not> sameName f item"
  shows "replenishLine item \<in> set (foldl (replenish R) fin (pre @ item # post))"
proof -
  have "replenish R (foldl (replenish R) fin pre) item =
      foldl (replenish R) fin pre @ [replenishLine item]"
    using assms by (simp add: replenish_wanted pushIfAbsent_cases)
  then have "replenishLine item \<in> set (replenish R (foldl (replenish R) fin pre) item)"
    by simp
  then show ?thesis
    using replenish_mono [of "replenish R (foldl (replenish R) fin pre) item" R post]
    by auto
qed

lemma replenish_skip:
  assumes "\<exists>f\<in>set (foldl (replenish R) fin pre). sameName f item"
  shows "foldl (replenish R) fin (pre @ [item]) = foldl (replenish R) fin pre"
  using assms by (simp add: replenish_wanted pushIfAbsent_cases)

subsection \<open>The shopping list\<close>

lemma netted_key:
  assumes "(k, d) \<in> set needed" and "distinct (map fst needed)"
  shows "e \<in> set (netted inven needed) \<and> item_name e = k \<longleftrightarrow>
     \<not> excluded (inStockOf inven k) \<and>
     0 < need_amount d - stockAmount (inStockOf inven k) \<and>
     e = \<lparr>item_name = k, item_amount = need_amount d - stockAmount (inStockOf inven k),
          item_unit = need_unit d, item_category = need_category d\<rparr>"
proof
  assume l: "e \<in> set (netted inven needed) \<and> item_name e = k"
  then obtain k' d' where kd': "(k', d') \<in> set needed"
    "\<not> excluded (inStockOf inven k')"
    "0 < need_amount d' - stockAmount (inStockOf inven k')"
    "e = \<lparr>item_name = k', item_amount = need_amount d' - stockAmount (inStockOf inven k'),
          item_unit = need_unit d', item_category = need_category d'\<rparr>"
    unfolding in_netted by blast
  from l kd'(4) have "k' = k" by simp
  moreover from this kd'(1) assms have "d' = d"
    by (auto dest: eq_key_imp_eq_value)
  ultimately show "\<not> excluded (inStockOf inven k) \<and>
     0 < need_amount d - stockAmount (inStockOf inven k) \<and>
     e = \<lparr>item_name = k, item_amount = need_amount d - stockAmount (inStockOf inven k),
          item_unit = need_unit d, item_category = need_category d\<rparr>"
    using kd' by simp
next
  assume "\<not> excluded (inStockOf inven k) \<and>
     0 < need_amount d - stockAmount (inStockOf inven k) \<and>
     e = \<lparr>item_name = k, item_amount = need_amount d - stockAmount (inStockOf inven k),
          item_unit = need_unit d, item_category = need_category d\<rparr>"
  then show "e \<in> set (netted inven needed) \<and> item_name e = k"
    unfolding in_netted using assms(1) by auto
qed

lemma shoppingList_ext:
  "\<exists>ext. shoppingList plan rs inven R = netted inven (aggregate rs plan) @ ext \<and>
     (\<forall>e\<in>set ext. \<exists>item\<in>set inven. wanted R item \<and> e = replenishLine item \<and>
        (\<forall>f\<in>set (netted inven (aggregate rs plan)). \<not> sameName f item))"
  unfolding shoppingList_def by (rule replenish_ext)

lemma distinct_aggregate: "distinct (map fst (aggregate rs plan))"
  using wf_aggregate [of rs plan] by (simp add: wf_needed_def)

lemma lower_aggregate: "(k, d) \<in> set (aggregate rs plan) \<Longrightarrow> toLowerCase k = k"
  using wf_aggregate [of rs plan] by (force simp: wf_needed_def list_all_iff)

lemma netted_lower:
  "e \<in> set (netted inven (aggregate rs plan)) \<Longrightarrow> toLowerCase (item_name e) = item_name e"
  unfolding in_netted by (auto dest: lower_aggregate)

lemma final_named:
  assumes "e \<in> set (shoppingList plan rs inven R)" and "toLowerCase (item_name e) = k"
  shows "(e \<in> set (netted inven (aggregate rs plan)) \<and> item_name e = k) \<or>
     (\<exists>j\<in>set inven. wanted R j \<and> toLowerCase (name j) = k \<and> e = replenishLine j \<and>
        (\<forall>f\<in>set (netted inven (aggregate rs plan)). \<not> sameName f j))"
proof -
  obtain ext where ext: "shoppingList plan rs inven R = netted inven (aggregate rs plan) @ ext"
    "\<forall>e\<in>set ext. \<exists>item\<in>set inven. wanted R item \<and> e = replenishLine item \<and>
        (\<forall>f\<in>set (netted inven (aggregate rs plan)). \<not> sameName f item)"
    using shoppingList_ext [of plan rs inven R] by blast
  from assms(1) ext(1)
  consider "e \<in> set (netted inven (aggregate rs plan))" | "e \<in> set ext" by auto
  then show ?thesis
  proof cases
    case 1
    with netted_lower [OF 1] assms(2) show ?thesis by simp
  next
    case 2
    then obtain j where j: "j \<in> set inven" "wanted R j" "e = replenishLine j"
      "\<forall>f\<in>set (netted inven (aggregate rs plan)). \<not> sameName f j"
      using ext(2) by blast
    from j(3) assms(2) have "toLowerCase (name j) = k" by (simp add: replenishLine_def)
    with j show ?thesis by blast
  qed
qed

lemmas eval_simps = toLowerCase_def lower_char_Char orElse_def orElseOpt_def
  addAmount_def addNeeded_def addPlan_def aggregate_def excluded_def stockAmount_def
  inStockOf_def netEntry_def netted_def replenishLine_def pushIfAbsent_def replenish_def
  shoppingList_def Let_def

lemma pizza_example:
  "shoppingList pizzaPlan (recipes INITIAL_DATA) sauceStock {} =
     [\<lparr>item_name = ''pizza dough'', item_amount = 2, item_unit = ''pcs'', item_category = ''Bakery''\<rparr>,
      \<lparr>item_name = ''tomato sauce'', item_amount = 150, item_unit = ''ml'', item_category = ''Pantry''\<rparr>,
      \<lparr>item_name = ''mozzarella'', item_amount = 300, item_unit = ''g'', item_category = ''Dairy''\<rparr>,
      \<lparr>item_name = ''fresh basil'', item_amount = 10, item_unit = ''leaves'', item_category = ''Produce''\<rparr>]"
  by (simp add: eval_simps pizzaPlan_def sauceStock_def INITIAL_DATA_def pizza_def toast_def)

text \<open>
  Claim C1, as amended. For every entry \<open>(k, d)\<close> of the aggregated demand whose
  matched inventory item is not an excluded untracked item: the demand \<open>d\<close> is the
  sum over the planned recipes of amount times multiplier; the netting stage emits a
  line named \<open>k\<close> exactly when the demand minus the amount in stock, floored at zero,
  is positive, and that line carries this remainder. The final list has a line of that
  name (up to case) exactly when the remainder is positive or an inventory item of that
  name is out of stock, or low on stock and flagged; with a positive remainder every
  line of that name is the netting line with the remainder as amount, otherwise every
  line of that name is the quantity-one replenishment line of such an inventory item.
  In the scenario of the specification the tomato sauce line has amount 150.
\<close>

theorem shopping_netting:
  "((k, d) \<in> set (aggregate rs plan) \<and> \<not> excluded (inStockOf inven k) \<longrightarrow>
      need_amount d = totalDemand rs plan k \<and>
      ((\<exists>e\<in>set (netted inven (aggregate rs plan)). item_name e = k) \<longleftrightarrow>
         0 < remainder rs plan inven k) \<and>
      (\<forall>e\<in>set (netted inven (aggregate rs plan)). item_name e = k \<longrightarrow>
         e = \<lparr>item_name = k, item_amount = remainder rs plan inven k,
              item_unit = need_unit d, item_category = need_category d\<rparr>) \<and>
      (\<lparr>item_name = k, item_amount = remainder rs plan inven k,
        item_unit = need_unit d, item_category = need_category d\<rparr>
         \<in> set (shoppingList plan rs inven R) \<longleftrightarrow> 0 < remainder rs plan inven k) \<and>
      ((\<exists>e\<in>set (shoppingList plan rs inven R). toLowerCase (item_name e) = k) \<longleftrightarrow>
         0 < remainder rs plan inven k \<or>
         (\<exists>j\<in>set inven. toLowerCase (name j) = k \<and> wanted R j)) \<and>
      (0 < remainder rs plan inven k \<longrightarrow>
         (\<forall>e\<in>set (shoppingList plan rs inven R). toLowerCase (item_name e) = k \<longrightarrow>
            e = \<lparr>item_name = k, item_amount = remainder rs plan inven k,
                 item_unit = need_unit d, item_category = need_category d\<rparr>)) \<and>
      (\<not> 0 < remainder rs plan inven k \<longrightarrow>
         (\<forall>e\<in>set (shoppingList plan rs inven R). toLowerCase (item_name e) = k \<longrightarrow>
            (\<exists>j\<in>set inven. toLowerCase (name j) = k \<and> wanted R j \<and>
               e = replenishLine j)))) \<and>
   \<lparr>item_name = ''tomato sauce'', item_amount = 150, item_unit = ''ml'',
     item_category = ''Pantry''\<rparr>
     \<in> set (shoppingList pizzaPlan (recipes INITIAL_DATA) sauceStock {})"
proof -
  have example: "\<lparr>item_name = ''tomato sauce'', item_amount = 150, item_unit = ''ml'',
     item_category = ''Pantry''\<rparr>
     \<in> set (shoppingList pizzaPlan (recipes INITIAL_DATA) sauceStock {})"
    by (simp add: pizza_example)
  have general:
    "need_amount d = totalDemand rs plan k \<and>
      ((\<exists>e\<in>set (netted inven (aggregate rs plan)). item_name e = k) \<longleftrightarrow>
         0 < remainder rs plan inven k) \<and>
      (\<forall>e\<in>set (netted inven (aggregate rs plan)). item_name e = k \<longrightarrow>
         e = \<lparr>item_name = k, item_amount = remainder rs plan inven k,
              item_unit = need_unit d, item_category = need_category d\<rparr>) \<and>
      (\<lparr>item_name = k, item_amount = remainder rs plan inven k,
        item_unit = need_unit d, item_category = need_category d\<rparr>
         \<in> set (shoppingList plan rs inven R) \<longleftrightarrow> 0 < remainder rs plan inven k) \<and>
      ((\<exists>e\<in>set (shoppingList plan rs inven R). toLowerCase (item_name e) = k) \<longleftrightarrow>
         0 < remainder rs plan inven k \<or>
         (\<exists>j\<in>set inven. toLowerCase (name j) = k \<and> wanted R j)) \<and>
      (0 < remainder rs plan inven k \<longrightarrow>
         (\<forall>e\<in>set (shoppingList plan rs inven R). toLowerCase (item_name e) = k \<longrightarrow>
            e = \<lparr>item_name = k, item_amount = remainder rs plan inven k,
                 item_unit = need_unit d, item_category = need_category d\<rparr>)) \<and>
      (\<not> 0 < remainder rs plan inven k \<longrightarrow>
         (\<forall>e\<in>set (shoppingList plan rs inven R). toLowerCase (item_name e) = k \<longrightarrow>
            (\<exists>j\<in>set inven. toLowerCase (name j) = k \<and> wanted R j \<and>
               e = replenishLine j)))"
    if a: "(k, d) \<in> set (aggregate rs plan) \<and> \<not> excluded (inStockOf inven k)"
  proof -
    let ?n = "aggregate rs plan"
    let ?s = "stockAmount (inStockOf inven k)"
    let ?line = "\<lparr>item_name = k, item_amount = remainder rs plan inven k,
                item_unit = need_unit d, item_category = need_category d\<rparr>"
    have amt: "need_amount d = totalDemand rs plan k"
      using a by (simp add: aggregate_amount)
    have rem: "remainder rs plan inven k = max 0 (need_amount d - ?s)"
      by (simp add: remainder_def amt)
    have lk: "toLowerCase k = k" using a by (auto dest: lower_aggregate)
    have key: "e \<in> set (netted inven ?n) \<and> item_name e = k \<longleftrightarrow>
        0 < need_amount d - ?s \<and>
        e = \<lparr>item_name = k, item_amount = need_amount d - ?s,
             item_unit = need_unit d, item_category = need_category d\<rparr>" for e
      using netted_key [of k d ?n e inven] a distinct_aggregate [of rs plan] by simp
    have pos: "0 < remainder rs plan inven k \<longleftrightarrow> 0 < need_amount d - ?s"
      by (simp add: rem max_def)
    have val: "0 < need_amount d - ?s \<Longrightarrow> remainder rs plan inven k = need_amount d - ?s"
      by (simp add: rem max_def)
    have only: "0 < remainder rs plan inven k \<and> e = ?line"
      if "e \<in> set (netted inven ?n)" "item_name e = k" for e
    proof -
      from that key [of e] have "0 < need_amount d - ?s \<and>
        e = \<lparr>item_name = k, item_amount = need_amount d - ?s,
             item_unit = need_unit d, item_category = need_category d\<rparr>" by blast
      then show ?thesis by (simp add: val pos)
    qed
    have inl: "?line \<in> set (netted inven ?n)" if "0 < remainder rs plan inven k"
    proof -
      from that have p: "0 < need_amount d - ?s" by (simp add: pos)
      from key [of "\<lparr>item_name = k, item_amount = need_amount d - ?s,
             item_unit = need_unit d, item_category = need_category d\<rparr>"] p
      show ?thesis by (simp add: val)
    qed
    have inf: "?line \<in> set (shoppingList plan rs inven R)" if "0 < remainder rs plan inven k"
      using inl [OF that] replenish_mono [of "netted inven ?n" R inven]
      by (auto simp: shoppingList_def)
    have c2: "(\<exists>e\<in>set (netted inven ?n). item_name e = k) \<longleftrightarrow> 0 < remainder rs plan inven k"
    proof
      assume "\<exists>e\<in>set (netted inven ?n). item_name e = k"
      then obtain e where "e \<in> set (netted inven ?n)" "item_name e = k" by blast
      from only [OF this] show "0 < remainder rs plan inven k" by simp
    next
      assume "0 < remainder rs plan inven k"
      from inl [OF this] have "?line \<in> set (netted inven ?n) \<and> item_name ?line = k" by simp
      then show "\<exists>e\<in>set (netted inven ?n). item_name e = k" by blast
    qed
    have c3: "\<forall>e\<in>set (netted inven ?n). item_name e = k \<longrightarrow> e = ?line"
      using only by blast
    have c4: "?line \<in> set (shoppingList plan rs inven R) \<longleftrightarrow> 0 < remainder rs plan inven k"
    proof
      assume "0 < remainder rs plan inven k"
      then show "?line \<in> set (shoppingList plan rs inven R)" by (rule inf)
    next
      assume l: "?line \<in> set (shoppingList plan rs inven R)"
      have "toLowerCase (item_name ?line) = k" by (simp add: lk)
      from final_named [OF l this]
      consider "?line \<in> set (netted inven ?n)"
        | "\<exists>j\<in>set inven. ?line = replenishLine j" by blast
      then show "0 < remainder rs plan inven k"
      proof cases
        case 1
        from only [OF 1] show ?thesis by simp
      next
        case 2
        then obtain j where "?line = replenishLine j" by blast
        then have "item_amount ?line = item_amount (replenishLine j)" by simp
        then have "remainder rs plan inven k = 1" by (simp add: replenishLine_def)
        then show ?thesis by simp
      qed
    qed
    have c5: "(\<exists>e\<in>set (shoppingList plan rs inven R). toLowerCase (item_name e) = k) \<longleftrightarrow>
        0 < remainder rs plan inven k \<or>
        (\<exists>j\<in>set inven. toLowerCase (name j) = k \<and> wanted R j)"
    proof
      assume "\<exists>e\<in>set (shoppingList plan rs inven R). toLowerCase (item_name e) = k"
      then obtain e where e: "e \<in> set (shoppingList plan rs inven R)"
        "toLowerCase (item_name e) = k" by blast
      from final_named [OF e]
      consider "e \<in> set (netted inven ?n) \<and> item_name e = k"
        | "\<exists>j\<in>set inven. wanted R j \<and> toLowerCase (name j) = k" by blast
      then show "0 < remainder rs plan inven k \<or>
          (\<exists>j\<in>set inven. toLowerCase (name j) = k \<and> wanted R j)"
      proof cases
        case 1
        then have "0 < remainder rs plan inven k" using only [of e] by simp
        then show ?thesis by simp
      next
        case 2
        then show ?thesis by blast
      qed
    next
      assume "0 < remainder rs plan inven k \<or>
          (\<exists>j\<in>set inven. toLowerCase (name j) = k \<and> wanted R j)"
      then show "\<exists>e\<in>set (shoppingList plan rs inven R). toLowerCase (item_name e) = k"
      proof
        assume "0 < remainder rs plan inven k"
        from inf [OF this] have "?line \<in> set (shoppingList plan rs inven R) \<and>
            toLowerCase (item_name ?line) = k" by (simp add: lk)
        then show ?thesis by blast
      next
        assume "\<exists>j\<in>set inven. toLowerCase (name j) = k \<and> wanted R j"
        then obtain j where j: "j \<in> set inven" "toLowerCase (name j) = k" "wanted R j"
          by blast
        from replenish_covers [OF j(1) j(3), of "netted inven ?n"]
        obtain e where "e \<in> set (shoppingList plan rs inven R)" "sameName e j"
          by (auto simp: shoppingList_def)
        with j(2) have "e \<in> set (shoppingList plan rs inven R) \<and>
            toLowerCase (item_name e) = k" by (simp add: sameName_def)
        then show ?thesis by blast
      qed
    qed
    have c6: "\<forall>e\<in>set (shoppingList plan rs inven R). toLowerCase (item_name e) = k \<longrightarrow>
        e = ?line" if p: "0 < remainder rs plan inven k"
    proof (intro ballI impI)
      fix e
      assume e: "e \<in> set (shoppingList plan rs inven R)" "toLowerCase (item_name e) = k"
      from final_named [OF e]
      consider "e \<in> set (netted inven ?n) \<and> item_name e = k"
        | "\<exists>j\<in>set inven. toLowerCase (name j) = k \<and>
             (\<forall>f\<in>set (netted inven ?n). \<not> sameName f j)" by blast
      then show "e = ?line"
      proof cases
        case 1
        then show ?thesis using only [of e] by simp
      next
        case 2
        then obtain j where j: "toLowerCase (name j) = k"
          "\<forall>f\<in>set (netted inven ?n). \<not> sameName f j" by blast
        from inl [OF p] j(2) have "\<not> sameName ?line j" by blast
        with j(1) show ?thesis by (simp add: sameName_def lk)
      qed
    qed
    have c7: "\<forall>e\<in>set (shoppingList plan rs inven R). toLowerCase (item_name e) = k \<longrightarrow>
        (\<exists>j\<in>set inven. toLowerCase (name j) = k \<and> wanted R j \<and> e = replenishLine j)"
      if z: "\<not> 0 < remainder rs plan inven k"
    proof (intro ballI impI)
      fix e
      assume e: "e \<in> set (shoppingList plan rs inven R)" "toLowerCase (item_name e) = k"
      from final_named [OF e]
      consider "e \<in> set (netted inven ?n) \<and> item_name e = k"
        | "\<exists>j\<in>set inven. wanted R j \<and> toLowerCase (name j) = k \<and> e = replenishLine j"
        by blast
      then show "\<exists>j\<in>set inven. toLowerCase (name j) = k \<and> wanted R j \<and> e = replenishLine j"
      proof cases
        case 1
        then have "0 < remainder rs plan inven k" using only [of e] by simp
        with z show ?thesis by simp
      next
        case 2
        then show ?thesis by blast
      qed
    qed
    from amt c2 c3 c4 c5 c6 c7 show ?thesis by blast
  qed
  from general example show ?thesis by blast
qed

theorem shopping_netting_witness:
  "(''tomato sauce'', \<lparr>need_amount = 200, need_unit = ''ml'', need_category = ''Pantry''\<rparr>)
     \<in> set (aggregate (recipes INITIAL_DATA) pizzaPlan) \<and>
   \<not> excluded (inStockOf sauceStock ''tomato sauce'') \<and>
   totalDemand (recipes INITIAL_DATA) pizzaPlan ''tomato sauce'' = 200 \<and>
   remainder (recipes INITIAL_DATA) pizzaPlan sauceStock ''tomato sauce'' = 150 \<and>
   \<lparr>item_name = ''tomato sauce'', item_amount = 150, item_unit = ''ml'',
     item_category = ''Pantry''\<rparr>
     \<in> set (shoppingList pizzaPlan (recipes INITIAL_DATA) sauceStock {})"
proof -
  have h1: "(''tomato sauce'', \<lparr>need_amount = 200, need_unit = ''ml'', need_category = ''Pantry''\<rparr>)
     \<in> set (aggregate (recipes INITIAL_DATA) pizzaPlan)"
    by (simp add: eval_simps pizzaPlan_def INITIAL_DATA_def pizza_def toast_def)
  have h2: "\<not> excluded (inStockOf sauceStock ''tomato sauce'')"
    by (simp add: eval_simps sauceStock_def)
  have h3: "stockAmount (inStockOf sauceStock ''tomato sauce'') = 50"
    by (simp add: eval_simps sauceStock_def)
  note t = shopping_netting [of "''tomato sauce''"
      "\<lparr>need_amount = 200, need_unit = ''ml'', need_category = ''Pantry''\<rparr>"
      "recipes INITIAL_DATA" pizzaPlan sauceStock "{}", THEN conjunct1, rule_format,
      OF conjI, OF h1 h2]
  from t have d: "totalDemand (recipes INITIAL_DATA) pizzaPlan ''tomato sauce'' = 200"
    by simp
  then have r: "remainder (recipes INITIAL_DATA) pizzaPlan sauceStock ''tomato sauce'' = 150"
    by (simp add: remainder_def h3)
  from t have "\<lparr>item_name = ''tomato sauce'',
      item_amount = remainder (recipes INITIAL_DATA) pizzaPlan sauceStock ''tomato sauce'',
      item_unit = need_unit \<lparr>need_amount = 200, need_unit = ''ml'', need_category = ''Pantry''\<rparr>,
      item_category = need_category \<lparr>need_amount = 200, need_unit = ''ml'',
        need_category = ''Pantry''\<rparr>\<rparr>
     \<in> set (shoppingList pizzaPlan (recipes INITIAL_DATA) sauceStock {}) \<longleftrightarrow>
     0 < remainder (recipes INITIAL_DATA) pizzaPlan sauceStock ''tomato sauce''"
    by blast
  then have "\<lparr>item_name = ''tomato sauce'', item_amount = 150, item_unit = ''ml'',
     item_category = ''Pantry''\<rparr>
     \<in> set (shoppingList pizzaPlan (recipes INITIAL_DATA) sauceStock {})"
    by (simp add: r)
  with h1 h2 d r show ?thesis by simp
qed

text \<open>The claim as stated fails: with 500 ml of tracked tomato sauce that is marked out
  of stock, the entry is not excluded and its remainder is zero, yet the list has a
  tomato sauce line, of quantity one.\<close>

theorem shopping_netting_counterexample:
  "(''tomato sauce'', \<lparr>need_amount = 200, need_unit = ''ml'', need_category = ''Pantry''\<rparr>)
     \<in> set (aggregate (recipes INITIAL_DATA) pizzaPlan) \<and>
   \<not> excluded (inStockOf sauceOut ''tomato sauce'') \<and>
   stockAmount (inStockOf sauceOut ''tomato sauce'') = 500 \<and>
   remainder (recipes INITIAL_DATA) pizzaPlan sauceOut ''tomato sauce'' = 0 \<and>
   shoppingList pizzaPlan (recipes INITIAL_DATA) sauceOut {} =
     [\<lparr>item_name = ''pizza dough'', item_amount = 2, item_unit = ''pcs'',
       item_category = ''Bakery''\<rparr>,
      \<lparr>item_name = ''mozzarella'', item_amount = 300, item_unit = ''g'',
       item_category = ''Dairy''\<rparr>,
      \<lparr>item_name = ''fresh basil'', item_amount = 10, item_unit = ''leaves'',
       item_category = ''Produce''\<rparr>,
      \<lparr>item_name = ''Tomato Sauce'', item_amount = 1, item_unit = ''ml'',
       item_category = ''Pantry''\<rparr>]"
  by (simp add: eval_simps remainder_def totalDemand_def planDemand_def recipeDemand_def
      pizzaPlan_def sauceOut_def INITIAL_DATA_def pizza_def toast_def)

subsection \<open>Untracked items\<close>

text \<open>
  Claim C2, as amended. When the inventory item matched by a demanded name is untracked
  and not out of stock, the netting stage emits no line of that name, whatever the
  demand; a line of the final list bears that name (up to case) only when it is the
  quantity-one replenishment line of an inventory item of that name that is out of
  stock, or low on stock and flagged.
\<close>

theorem untracked_excluded:
  assumes "inStockOf inven k = Some item"
    and "untrackedAmount item = Some True"
    and "stockStatus item \<noteq> Some OutOfStock"
  shows "(\<forall>e\<in>set (netted inven (aggregate rs plan)). item_name e \<noteq> k) \<and>
     (\<forall>e\<in>set (shoppingList plan rs inven R). toLowerCase (item_name e) = k \<longrightarrow>
        (\<exists>j\<in>set inven. wanted R j \<and> toLowerCase (name j) = k \<and> e = replenishLine j))"
proof (intro conjI ballI impI)
  have ex: "excluded (inStockOf inven k)"
    using assms by (simp add: excluded_def)
  show n: "item_name e \<noteq> k" if "e \<in> set (netted inven (aggregate rs plan))" for e
    using that ex unfolding in_netted by auto
  fix e
  assume e: "e \<in> set (shoppingList plan rs inven R)" and l: "toLowerCase (item_name e) = k"
  obtain ext where ext: "shoppingList plan rs inven R = netted inven (aggregate rs plan) @ ext"
    "\<forall>e\<in>set ext. \<exists>item\<in>set inven. wanted R item \<and> e = replenishLine item \<and>
        (\<forall>f\<in>set (netted inven (aggregate rs plan)). \<not> sameName f item)"
    using shoppingList_ext [of plan rs inven R] by blast
  have "e \<notin> set (netted inven (aggregate rs plan))"
    using n [of e] netted_lower [of e inven rs plan] l by auto
  with e ext(1) have "e \<in> set ext" by simp
  then obtain j where j: "j \<in> set inven" "wanted R j" "e = replenishLine j"
    using ext(2) by blast
  from j(3) l have "toLowerCase (name j) = k" by (simp add: replenishLine_def)
  with j show "\<exists>j\<in>set inven. wanted R j \<and> toLowerCase (name j) = k \<and> e = replenishLine j"
    by blast
qed

theorem untracked_excluded_witness:
  "inStockOf [avocadoIn] ''avocado'' = Some avocadoIn \<and>
   untrackedAmount avocadoIn = Some True \<and>
   stockStatus avocadoIn \<noteq> Some OutOfStock \<and>
   totalDemand (recipes INITIAL_DATA) toastPlan ''avocado'' = 3 \<and>
   \<not> (\<exists>e\<in>set (shoppingList toastPlan (recipes INITIAL_DATA) [avocadoIn] {''inv2''}).
        toLowerCase (item_name e) = ''avocado'')"
proof -
  have h1: "inStockOf [avocadoIn] ''avocado'' = Some avocadoIn"
    by (simp add: eval_simps avocadoIn_def)
  have h2: "untrackedAmount avocadoIn = Some True" by (simp add: avocadoIn_def)
  have h3: "stockStatus avocadoIn \<noteq> Some OutOfStock" by (simp add: avocadoIn_def)
  have h4: "totalDemand (recipes INITIAL_DATA) toastPlan ''avocado'' = 3"
    by (simp add: totalDemand_def planDemand_def recipeDemand_def toastPlan_def
        INITIAL_DATA_def pizza_def toast_def toLowerCase_def lower_char_Char)
  have nw: "\<not> wanted {''inv2''} avocadoIn" by (simp add: wanted_def avocadoIn_def)
  from untracked_excluded [OF h1 h2 h3, of "recipes INITIAL_DATA" toastPlan "{''inv2''}"] nw
  have "\<not> (\<exists>e\<in>set (shoppingList toastPlan (recipes INITIAL_DATA) [avocadoIn] {''inv2''}).
        toLowerCase (item_name e) = ''avocado'')" by auto
  with h1 h2 h3 h4 show ?thesis by simp
qed

text \<open>The claim as stated fails: an untracked avocado that is low on stock and flagged
  for replenishment is on the list although the plan's demand for it is excluded.\<close>

theorem untracked_excluded_counterexample:
  "inStockOf [avocadoLow] ''avocado'' = Some avocadoLow \<and>
   untrackedAmount avocadoLow = Some True \<and>
   stockStatus avocadoLow \<noteq> Some OutOfStock \<and>
   totalDemand (recipes INITIAL_DATA) toastPlan ''avocado'' = 3 \<and>
   shoppingList toastPlan (recipes INITIAL_DATA) [avocadoLow] {''inv2''} =
     [\<lparr>item_name = ''sourdough bread'', item_amount = 6, item_unit = ''slices'',
       item_category = ''Bakery''\<rparr>,
      \<lparr>item_name = ''red pepper flakes'', item_amount = 3, item_unit = ''tsp'',
       item_category = ''Pantry''\<rparr>,
      \<lparr>item_name = ''Avocado'', item_amount = 1, item_unit = ''pcs'',
       item_category = ''Produce''\<rparr>]"
proof -
  have h4: "totalDemand (recipes INITIAL_DATA) toastPlan ''avocado'' = 3"
    by (simp add: totalDemand_def planDemand_def recipeDemand_def toastPlan_def
        INITIAL_DATA_def pizza_def toast_def toLowerCase_def lower_char_Char)
  have "shoppingList toastPlan (recipes INITIAL_DATA) [avocadoLow] {''inv2''} =
     [\<lparr>item_name = ''sourdough bread'', item_amount = 6, item_unit = ''slices'',
       item_category = ''Bakery''\<rparr>,
      \<lparr>item_name = ''red pepper flakes'', item_amount = 3, item_unit = ''tsp'',
       item_category = ''Pantry''\<rparr>,
      \<lparr>item_name = ''Avocado'', item_amount = 1, item_unit = ''pcs'',
       item_category = ''Produce''\<rparr>]"
    by (simp add: eval_simps toastPlan_def avocadoLow_def INITIAL_DATA_def pizza_def toast_def)
  with h4 show ?thesis by (simp add: eval_simps avocadoLow_def)
qed

subsection \<open>Replenishment of items that are out of stock\<close>

lemma sameName_replenishLine:
  "sameName (replenishLine j) item \<longleftrightarrow> toLowerCase (name j) = toLowerCase (name item)"
  by (simp add: sameName_def replenishLine_def)

text \<open>
  Claim C3, as amended. For an inventory item that is out of stock, whatever the plan and
  the replenish set: the list has a line whose name is the item's up to case; the item's
  own line (its name, quantity one, its unit or \<open>unit\<close> when empty, its category or
  \<open>Other\<close> when absent or empty) is added when no line of that name is in the list at
  the time the item is reached, that is, in the list made by the netting stage and the
  replenishment of the earlier inventory items, and nothing is added for the item when
  such a line is there; and when the netting stage has a line of that name, every line
  of that name in the list is a line of the netting stage.
\<close>

theorem out_of_stock_injected:
  assumes "inven = pre @ item # post"
    and "stockStatus item = Some OutOfStock"
  shows "(\<exists>e\<in>set (shoppingList plan rs inven R). sameName e item) \<and>
     ((\<forall>f\<in>set (foldl (replenish R) (netted inven (aggregate rs plan)) pre).
         \<not> sameName f item) \<longrightarrow>
        replenishLine item \<in> set (shoppingList plan rs inven R)) \<and>
     ((\<exists>f\<in>set (foldl (replenish R) (netted inven (aggregate rs plan)) pre).
         sameName f item) \<longrightarrow>
        foldl (replenish R) (netted inven (aggregate rs plan)) (pre @ [item]) =
          foldl (replenish R) (netted inven (aggregate rs plan)) pre) \<and>
     ((\<exists>f\<in>set (netted inven (aggregate rs plan)). sameName f item) \<longrightarrow>
        (\<forall>e\<in>set (shoppingList plan rs inven R). sameName e item \<longrightarrow>
           e \<in> set (netted inven (aggregate rs plan))))"
proof -
  have w: "wanted R item" using assms(2) by (simp add: wanted_def)
  have m: "item \<in> set inven" using assms(1) by simp
  have c1: "\<exists>e\<in>set (shoppingList plan rs inven R). sameName e item"
    unfolding shoppingList_def by (rule replenish_covers [OF m w])
  have c2: "replenishLine item \<in> set (shoppingList plan rs inven R)"
    if "\<forall>f\<in>set (foldl (replenish R) (netted inven (aggregate rs plan)) pre).
         \<not> sameName f item"
    using replenish_at [OF w that, of post] by (simp add: shoppingList_def assms(1))
  have c3: "foldl (replenish R) (netted inven (aggregate rs plan)) (pre @ [item]) =
      foldl (replenish R) (netted inven (aggregate rs plan)) pre"
    if "\<exists>f\<in>set (foldl (replenish R) (netted inven (aggregate rs plan)) pre).
         sameName f item"
    by (rule replenish_skip [OF that])
  have c4: "\<forall>e\<in>set (shoppingList plan rs inven R). sameName e item \<longrightarrow>
      e \<in> set (netted inven (aggregate rs plan))"
    if c: "\<exists>f\<in>set (netted inven (aggregate rs plan)). sameName f item"
  proof (intro ballI impI)
    fix e
    assume e: "e \<in> set (shoppingList plan rs inven R)" and s: "sameName e item"
    from final_named [OF e refl]
    consider "e \<in> set (netted inven (aggregate rs plan))"
      | "\<exists>j\<in>set inven. toLowerCase (name j) = toLowerCase (item_name e) \<and>
           (\<forall>f\<in>set (netted inven (aggregate rs plan)). \<not> sameName f j)" by blast
    then show "e \<in> set (netted inven (aggregate rs plan))"
    proof cases
      case 1
      then show ?thesis .
    next
      case 2
      then obtain j where j: "toLowerCase (name j) = toLowerCase (item_name e)"
        "\<forall>f\<in>set (netted inven (aggregate rs plan)). \<not> sameName f j" by blast
      from j(1) s have "toLowerCase (name j) = toLowerCase (name item)"
        by (simp add: sameName_def)
      then have "\<forall>f\<in>set (netted inven (aggregate rs plan)). \<not> sameName f item"
        using j(2) by (simp add: sameName_def)
      with c show ?thesis by blast
    qed
  qed
  from c1 c2 c3 c4 show ?thesis by blast
qed

theorem out_of_stock_injected_witness:
  "[saltIn, saltB] = [saltIn] @ saltB # [] \<and>
   stockStatus saltB = Some OutOfStock \<and>
   foldl (replenish {}) (netted [saltIn, saltB] (aggregate [] [])) [saltIn] = [] \<and>
   \<lparr>item_name = ''salt'', item_amount = 1, item_unit = ''g'', item_category = ''Household''\<rparr>
     \<in> set (shoppingList [] [] [saltIn, saltB] {})"
proof -
  have h1: "[saltIn, saltB] = [saltIn] @ saltB # []" by simp
  have h2: "stockStatus saltB = Some OutOfStock" by (simp add: saltB_def)
  have h3: "foldl (replenish {}) (netted [saltIn, saltB] (aggregate [] [])) [saltIn] = []"
    by (simp add: netted_def aggregate_def replenish_def saltIn_def)
  from out_of_stock_injected [OF h1 h2, of "[]" "[]" "{}"] h3
  have "replenishLine saltB \<in> set (shoppingList [] [] [saltIn, saltB] {})" by simp
  then have "\<lparr>item_name = ''salt'', item_amount = 1, item_unit = ''g'',
      item_category = ''Household''\<rparr> \<in> set (shoppingList [] [] [saltIn, saltB] {})"
    by (simp add: replenishLine_def saltB_def orElse_def orElseOpt_def)
  with h1 h2 h3 show ?thesis by simp
qed

text \<open>The claim as stated fails: the second of two inventory items of one name, both out
  of stock, gets no line of its own (none with its spelling, its unit or its category),
  although the netting stage has no line at all; and the line of an item whose unit is
  the empty string carries the unit \<open>unit\<close>.\<close>

theorem out_of_stock_injected_counterexample:
  "stockStatus saltB = Some OutOfStock \<and>
   name saltB = ''salt'' \<and> unit saltB = ''g'' \<and> category saltB = Some ''Household'' \<and>
   netted [saltA, saltB] (aggregate [] []) = [] \<and>
   shoppingList [] [] [saltA, saltB] {} =
     [\<lparr>item_name = ''Salt'', item_amount = 1, item_unit = ''kg'', item_category = ''Pantry''\<rparr>] \<and>
   stockStatus pepper = Some OutOfStock \<and> unit pepper = [] \<and>
   shoppingList [] [] [pepper] {} =
     [\<lparr>item_name = ''Pepper'', item_amount = 1, item_unit = ''unit'',
       item_category = ''Pantry''\<rparr>]"
  by (simp add: eval_simps saltA_def saltB_def pepper_def)

subsection \<open>Replenishment of items that are low on stock\<close>

text \<open>
  Claim C4, as amended. A low-stock inventory item whose identifier is in the replenish
  set always has a line of its name (up to case) in the list. When the netting stage has
  no line of that name and no other inventory item bears that name, the item has a line
  in the list if and only if its identifier is in the replenish set.
\<close>

theorem low_stock_opt_in:
  assumes "item \<in> set inven"
    and "stockStatus item = Some LowStock"
  shows "(ident item \<in> R \<longrightarrow> (\<exists>e\<in>set (shoppingList plan rs inven R). sameName e item)) \<and>
     ((\<forall>f\<in>set (netted inven (aggregate rs plan)). \<not> sameName f item) \<and>
      (\<forall>j\<in>set inven. toLowerCase (name j) = toLowerCase (name item) \<longrightarrow> j = item) \<longrightarrow>
        ((\<exists>e\<in>set (shoppingList plan rs inven R). sameName e item) \<longleftrightarrow> ident item \<in> R))"
proof (intro conjI impI)
  show c: "\<exists>e\<in>set (shoppingList plan rs inven R). sameName e item" if "ident item \<in> R"
  proof -
    have "wanted R item" using that assms(2) by (simp add: wanted_def)
    from replenish_covers [OF assms(1) this] show ?thesis by (simp add: shoppingList_def)
  qed
  show "(\<exists>e\<in>set (shoppingList plan rs inven R). sameName e item) \<longleftrightarrow> ident item \<in> R"
    if h: "(\<forall>f\<in>set (netted inven (aggregate rs plan)). \<not> sameName f item) \<and>
      (\<forall>j\<in>set inven. toLowerCase (name j) = toLowerCase (name item) \<longrightarrow> j = item)"
  proof
    assume "\<exists>e\<in>set (shoppingList plan rs inven R). sameName e item"
    then obtain e where e: "e \<in> set (shoppingList plan rs inven R)" "sameName e item"
      by blast
    obtain ext where ext: "shoppingList plan rs inven R = netted inven (aggregate rs plan) @ ext"
      "\<forall>e\<in>set ext. \<exists>item\<in>set inven. wanted R item \<and> e = replenishLine item \<and>
        (\<forall>f\<in>set (netted inven (aggregate rs plan)). \<not> sameName f item)"
      using shoppingList_ext [of plan rs inven R] by blast
    from e h have "e \<notin> set (netted inven (aggregate rs plan))" by blast
    with e(1) ext(1) have "e \<in> set ext" by simp
    then obtain j where j: "j \<in> set inven" "wanted R j" "e = replenishLine j"
      using ext(2) by blast
    from j(3) e(2) have "toLowerCase (name j) = toLowerCase (name item)"
      by (simp add: sameName_replenishLine)
    with h j(1) have "j = item" by blast
    with j(2) assms(2) show "ident item \<in> R" by (simp add: wanted_def)
  next
    assume "ident item \<in> R"
    then show "\<exists>e\<in>set (shoppingList plan rs inven R). sameName e item" by (rule c)
  qed
qed

theorem low_stock_opt_in_witness:
  "avocadoLow \<in> set [avocadoLow] \<and> stockStatus avocadoLow = Some LowStock \<and>
   netted [avocadoLow] (aggregate (recipes INITIAL_DATA) []) = [] \<and>
   (\<exists>e\<in>set (shoppingList [] (recipes INITIAL_DATA) [avocadoLow] {''inv2''}).
      sameName e avocadoLow) \<and>
   \<not> (\<exists>e\<in>set (shoppingList [] (recipes INITIAL_DATA) [avocadoLow] {''inv1''}).
      sameName e avocadoLow)"
proof -
  have h1: "avocadoLow \<in> set [avocadoLow]" by simp
  have h2: "stockStatus avocadoLow = Some LowStock" by (simp add: avocadoLow_def)
  have h3: "netted [avocadoLow] (aggregate (recipes INITIAL_DATA) []) = []"
    by (simp add: netted_def aggregate_def)
  have i1: "ident avocadoLow \<in> {''inv2''}" by (simp add: avocadoLow_def)
  have i2: "ident avocadoLow \<notin> {''inv1''}" by (simp add: avocadoLow_def)
  from low_stock_opt_in [OF h1 h2, of "{''inv2''}" "[]" "recipes INITIAL_DATA"] i1
  have a: "\<exists>e\<in>set (shoppingList [] (recipes INITIAL_DATA) [avocadoLow] {''inv2''}).
      sameName e avocadoLow" by blast
  from low_stock_opt_in [OF h1 h2, of "{''inv1''}" "[]" "recipes INITIAL_DATA"] h3 i2
  have b: "\<not> (\<exists>e\<in>set (shoppingList [] (recipes INITIAL_DATA) [avocadoLow] {''inv1''}).
      sameName e avocadoLow)" by simp
  from h1 h2 h3 a b show ?thesis by blast
qed

text \<open>The claim as stated fails: a tracked avocado marked low on stock is on the list as
  soon as the plan needs more than the stock holds, and the list is the same whether
  the item is flagged or not.\<close>

theorem low_stock_opt_in_counterexample:
  "stockStatus avocadoTracked = Some LowStock \<and>
   ident avocadoTracked \<notin> {} \<and> ident avocadoTracked \<in> {''inv2''} \<and>
   shoppingList toastPlan4 (recipes INITIAL_DATA) [avocadoTracked] {} =
     [\<lparr>item_name = ''sourdough bread'', item_amount = 8, item_unit = ''slices'',
       item_category = ''Bakery''\<rparr>,
      \<lparr>item_name = ''avocado'', item_amount = 2, item_unit = ''pcs'',
       item_category = ''Produce''\<rparr>,
      \<lparr>item_name = ''red pepper flakes'', item_amount = 4, item_unit = ''tsp'',
       item_category = ''Pantry''\<rparr>] \<and>
   shoppingList toastPlan4 (recipes INITIAL_DATA) [avocadoTracked] {''inv2''} =
     shoppingList toastPlan4 (recipes INITIAL_DATA) [avocadoTracked] {}"
  by (simp add: eval_simps toastPlan4_def avocadoTracked_def INITIAL_DATA_def pizza_def
      toast_def)

subsection \<open>Spelling of the names on the list\<close>

lemma keys_ingredients:
  "set (map fst (foldl (addNeeded cnt) n ings)) =
     set (map fst n) \<union> (\<lambda>ing. toLowerCase (name ing)) ` set ings"
proof (induction ings arbitrary: n)
  case Nil
  show ?case by simp
next
  case (Cons ing ings)
  have "set (map fst (addNeeded cnt n ing)) = insert (toLowerCase (name ing)) (set (map fst n))"
    by (auto simp: keys_addNeeded)
  then show ?case using Cons [of "addNeeded cnt n ing"] by auto
qed

lemma keys_plans:
  "k \<in> set (map fst (foldl (addPlan rs) n ps)) \<Longrightarrow>
     k \<in> set (map fst n) \<or>
     (\<exists>p\<in>set ps. \<exists>r. find (\<lambda>r. recipe_id r = recipeId p) rs = Some r \<and>
        (\<exists>ing\<in>set (ingredients r). k = toLowerCase (name ing)))"
proof (induction ps arbitrary: n)
  case Nil
  then show ?case by simp
next
  case (Cons p ps)
  from Cons.IH [of "addPlan rs n p"] Cons.prems
  consider "k \<in> set (map fst (addPlan rs n p))"
    | "\<exists>p\<in>set ps. \<exists>r. find (\<lambda>r. recipe_id r = recipeId p) rs = Some r \<and>
        (\<exists>ing\<in>set (ingredients r). k = toLowerCase (name ing))"
    by auto
  then show ?case
  proof cases
    case 1
    show ?thesis
    proof (cases "find (\<lambda>r. recipe_id r = recipeId p) rs")
      case None
      with 1 show ?thesis by (simp add: addPlan_def)
    next
      case (Some r)
      with 1 have "k \<in> set (map fst n) \<or> k \<in> (\<lambda>ing. toLowerCase (name ing)) ` set (ingredients r)"
        using keys_ingredients [of "count p" n "ingredients r"] by (simp add: addPlan_def)
      with Some show ?thesis by auto
    qed
  next
    case 2
    then show ?thesis by auto
  qed
qed

lemma netted_origin:
  assumes "e \<in> set (netted inven (aggregate rs plan))"
  shows "\<exists>p\<in>set plan. \<exists>r. find (\<lambda>r. recipe_id r = recipeId p) rs = Some r \<and>
     (\<exists>ing\<in>set (ingredients r). item_name e = toLowerCase (name ing))"
proof -
  from assms obtain d where "(item_name e, d) \<in> set (aggregate rs plan)"
    unfolding in_netted by auto
  then have "item_name e \<in> set (map fst (foldl (addPlan rs) [] plan))"
    by (force simp: aggregate_def)
  from keys_plans [OF this] show ?thesis by simp
qed

lemma shoppingList_injected:
  "shoppingList plan rs inven R =
     netted inven (aggregate rs plan) @ injected plan rs inven R"
proof -
  obtain ext where "shoppingList plan rs inven R = netted inven (aggregate rs plan) @ ext"
    using shoppingList_ext [of plan rs inven R] by blast
  then show ?thesis by (simp add: injected_def)
qed

lemma injected_lines:
  assumes "e \<in> set (injected plan rs inven R)"
  shows "\<exists>item\<in>set inven. wanted R item \<and> e = replenishLine item \<and>
     (\<forall>f\<in>set (netted inven (aggregate rs plan)). \<not> sameName f item)"
proof -
  obtain ext where ext: "shoppingList plan rs inven R = netted inven (aggregate rs plan) @ ext"
    "\<forall>e\<in>set ext. \<exists>item\<in>set inven. wanted R item \<and> e = replenishLine item \<and>
        (\<forall>f\<in>set (netted inven (aggregate rs plan)). \<not> sameName f item)"
    using shoppingList_ext [of plan rs inven R] by blast
  from ext(1) have "injected plan rs inven R = ext" by (simp add: injected_def)
  with assms ext(2) show ?thesis by blast
qed

lemma injected_own_line:
  assumes "inven = pre @ item # post" and "wanted R item"
    and "\<forall>f\<in>set (foldl (replenish R) (netted inven (aggregate rs plan)) pre).
           \<not> sameName f item"
  shows "replenishLine item \<in> set (injected plan rs inven R)"
proof -
  have "replenishLine item \<in> set (shoppingList plan rs inven R)"
    using replenish_at [OF assms(2) assms(3), of post]
    by (simp add: shoppingList_def assms(1))
  moreover have "replenishLine item \<notin> set (netted inven (aggregate rs plan))"
  proof
    assume "replenishLine item \<in> set (netted inven (aggregate rs plan))"
    then have "replenishLine item
        \<in> set (foldl (replenish R) (netted inven (aggregate rs plan)) pre)"
      using replenish_mono [of "netted inven (aggregate rs plan)" R pre] by blast
    with assms(3) have "\<not> sameName (replenishLine item) item" by blast
    then show False by (simp add: sameName_replenishLine)
  qed
  ultimately show ?thesis
    using shoppingList_injected [of plan rs inven R] by auto
qed

text \<open>
  Claim C10, as amended. Every line of the netting stage carries a name that is its own
  lower-case form, the lower-cased name of an ingredient of a planned recipe. The list
  is the netting stage followed by the replenishment lines; every replenishment line
  carries the name of a selected inventory item as it is spelled there, and a selected
  item gets such a line when no line of its name is in the list at the time the item is
  reached. A name with an upper-case letter differs from its lower-case form, so no line
  of the netting stage is spelled like it; a line of the list that is spelled like it
  is the replenishment line of an inventory item spelled exactly so.
\<close>

theorem name_casing:
  "(\<forall>e\<in>set (netted inven (aggregate rs plan)).
      toLowerCase (item_name e) = item_name e \<and>
      (\<exists>p\<in>set plan. \<exists>r. find (\<lambda>r. recipe_id r = recipeId p) rs = Some r \<and>
         (\<exists>ing\<in>set (ingredients r). item_name e = toLowerCase (name ing)))) \<and>
   shoppingList plan rs inven R =
     netted inven (aggregate rs plan) @ injected plan rs inven R \<and>
   (\<forall>e\<in>set (injected plan rs inven R).
      \<exists>item\<in>set inven. wanted R item \<and> e = replenishLine item \<and> item_name e = name item) \<and>
   (\<forall>pre item post.
      inven = pre @ item # post \<and> wanted R item \<and>
      (\<forall>f\<in>set (foldl (replenish R) (netted inven (aggregate rs plan)) pre).
         \<not> sameName f item) \<longrightarrow>
      replenishLine item \<in> set (injected plan rs inven R) \<and>
      item_name (replenishLine item) = name item) \<and>
   (\<forall>s. (\<exists>c\<in>set s. is_upper c) \<longrightarrow>
      toLowerCase s \<noteq> s \<and>
      (\<forall>e\<in>set (netted inven (aggregate rs plan)). item_name e \<noteq> s) \<and>
      (\<forall>e\<in>set (shoppingList plan rs inven R). item_name e = s \<longrightarrow>
         e \<in> set (injected plan rs inven R) \<and>
         (\<exists>item\<in>set inven. wanted R item \<and> name item = s \<and> e = replenishLine item)))"
proof -
  have c1: "toLowerCase (item_name e) = item_name e \<and>
      (\<exists>p\<in>set plan. \<exists>r. find (\<lambda>r. recipe_id r = recipeId p) rs = Some r \<and>
         (\<exists>ing\<in>set (ingredients r). item_name e = toLowerCase (name ing)))"
    if e: "e \<in> set (netted inven (aggregate rs plan))" for e
    using netted_lower [OF e] netted_origin [OF e] by simp
  have c3: "\<exists>item\<in>set inven. wanted R item \<and> e = replenishLine item \<and>
      item_name e = name item"
    if e: "e \<in> set (injected plan rs inven R)" for e
  proof -
    from injected_lines [OF e] obtain item where
      "item \<in> set inven" "wanted R item" "e = replenishLine item" by blast
    then have "item \<in> set inven \<and> wanted R item \<and> e = replenishLine item \<and>
        item_name e = name item" by (simp add: replenishLine_def)
    then show ?thesis by blast
  qed
  have c4: "replenishLine item \<in> set (injected plan rs inven R) \<and>
      item_name (replenishLine item) = name item"
    if "inven = pre @ item # post \<and> wanted R item \<and>
      (\<forall>f\<in>set (foldl (replenish R) (netted inven (aggregate rs plan)) pre).
         \<not> sameName f item)" for pre item post
    using injected_own_line [of inven pre item post R rs plan] that
    by (simp add: replenishLine_def)
  have c5: "toLowerCase s \<noteq> s \<and>
      (\<forall>e\<in>set (netted inven (aggregate rs plan)). item_name e \<noteq> s) \<and>
      (\<forall>e\<in>set (shoppingList plan rs inven R). item_name e = s \<longrightarrow>
         e \<in> set (injected plan rs inven R) \<and>
         (\<exists>item\<in>set inven. wanted R item \<and> name item = s \<and> e = replenishLine item))"
    if u: "\<exists>c\<in>set s. is_upper c" for s
  proof -
    have ne: "toLowerCase s \<noteq> s" by (rule toLowerCase_upper [OF u])
    have nn: "item_name e \<noteq> s" if "e \<in> set (netted inven (aggregate rs plan))" for e
      using netted_lower [OF that] ne by auto
    have fl: "e \<in> set (injected plan rs inven R) \<and>
         (\<exists>item\<in>set inven. wanted R item \<and> name item = s \<and> e = replenishLine item)"
      if e: "e \<in> set (shoppingList plan rs inven R)" and n: "item_name e = s" for e
    proof -
      from e nn [of e] n have i: "e \<in> set (injected plan rs inven R)"
        using shoppingList_injected [of plan rs inven R] by auto
      from c3 [OF i] n show ?thesis using i by auto
    qed
    from ne nn fl show ?thesis by blast
  qed
  from c1 c3 c4 c5 shoppingList_injected [of plan rs inven R] show ?thesis by blast
qed

theorem name_casing_witness:
  "[avocadoLow] = [] @ avocadoLow # [] \<and> wanted {''inv2''} avocadoLow \<and>
   map item_name (netted [avocadoLow] (aggregate (recipes INITIAL_DATA) toastPlan)) =
     [''sourdough bread'', ''red pepper flakes''] \<and>
   \<lparr>item_name = ''Avocado'', item_amount = 1, item_unit = ''pcs'', item_category = ''Produce''\<rparr>
     \<in> set (injected toastPlan (recipes INITIAL_DATA) [avocadoLow] {''inv2''})"
proof -
  have h1: "[avocadoLow] = [] @ avocadoLow # []" by simp
  have h2: "wanted {''inv2''} avocadoLow" by (simp add: wanted_def avocadoLow_def)
  have n: "map item_name (netted [avocadoLow] (aggregate (recipes INITIAL_DATA) toastPlan)) =
     [''sourdough bread'', ''red pepper flakes'']"
    by (simp add: eval_simps toastPlan_def avocadoLow_def INITIAL_DATA_def pizza_def
        toast_def)
  have h3: "\<forall>f\<in>set (foldl (replenish {''inv2''})
      (netted [avocadoLow] (aggregate (recipes INITIAL_DATA) toastPlan)) []).
        \<not> sameName f avocadoLow"
    by (simp add: eval_simps sameName_def toastPlan_def avocadoLow_def INITIAL_DATA_def
        pizza_def toast_def)
  note own = name_casing [of "[avocadoLow]" "recipes INITIAL_DATA" toastPlan "{''inv2''}",
      THEN conjunct2, THEN conjunct2, THEN conjunct2, THEN conjunct1, rule_format,
      OF conjI, OF h1 conjI, OF h2 h3]
  from own have "replenishLine avocadoLow
      \<in> set (injected toastPlan (recipes INITIAL_DATA) [avocadoLow] {''inv2''})"
    by simp
  then have "\<lparr>item_name = ''Avocado'', item_amount = 1, item_unit = ''pcs'',
      item_category = ''Produce''\<rparr>
     \<in> set (injected toastPlan (recipes INITIAL_DATA) [avocadoLow] {''inv2''})"
    by (simp add: replenishLine_def avocadoLow_def orElse_def orElseOpt_def)
  with h1 h2 n show ?thesis by simp
qed

text \<open>The last part of the claim as stated fails: the recipe spells its ingredient
  \<open>Avocado\<close>, with an upper-case letter, and the list has a line of exactly that
  spelling, the replenishment line of the inventory item.\<close>

theorem name_casing_counterexample:
  "map name (ingredients toast) = [''Sourdough Bread'', ''Avocado'', ''Red Pepper Flakes''] \<and>
   find (\<lambda>r. recipe_id r = ''2'') (recipes INITIAL_DATA) = Some toast \<and>
   is_upper CHR ''A'' \<and> CHR ''A'' \<in> set ''Avocado'' \<and>
   map item_name (shoppingList toastPlan (recipes INITIAL_DATA) [avocadoLow] {''inv2''}) =
     [''sourdough bread'', ''red pepper flakes'', ''Avocado'']"
  by (simp add: eval_simps is_upper_def toastPlan_def avocadoLow_def INITIAL_DATA_def
      pizza_def toast_def)

subsection \<open>Adding to the inventory\<close>

lemma findIndex_None: "findIndex P xs = None \<longleftrightarrow> (\<forall>x\<in>set xs. \<not> P x)"
  by (induction xs) auto

lemma findIndex_Some:
  "findIndex P xs = Some i \<Longrightarrow> i < length xs \<and> P (xs ! i) \<and> (\<forall>j<i. \<not> P (xs ! j))"
proof (induction xs arbitrary: i)
  case Nil
  then show ?case by simp
next
  case (Cons x xs)
  show ?case
  proof (cases "P x")
    case True
    with Cons.prems show ?thesis by simp
  next
    case False
    with Cons.prems obtain k where k: "findIndex P xs = Some k" "i = Suc k" by auto
    from Cons.IH [OF k(1)] False k(2) show ?thesis
      by (auto simp: nth_Cons split: nat.splits)
  qed
qed

text \<open>
  Claim C5, as amended. A new item whose name is blank leaves the inventory as it is. For a
  new item whose name is not blank: when no inventory item has its name up to case, the
  item is appended under the new identifier; otherwise the list
  keeps its length, every item but the first match is as before, and the first match
  becomes untracked with the incoming stock status when the new item is untracked, tracked
  with the incoming amount when the new item is tracked and the match was untracked, and
  has the incoming amount added when both are tracked.
\<close>

theorem add_or_merge:
  "(trim (new_name newItem) = [] \<longrightarrow> addItem uuid inven newItem = inven) \<and>
   (trim (new_name newItem) \<noteq> [] \<longrightarrow>
     ((\<forall>i\<in>set inven. toLowerCase (name i) \<noteq> toLowerCase (new_name newItem)) \<longrightarrow>
       addItem uuid inven newItem = inven @ [created uuid newItem] \<and>
       ident (created uuid newItem) = uuid) \<and>
     (\<forall>k. matchIndex inven newItem = Some k \<longrightarrow>
       k < length inven \<and>
       toLowerCase (name (inven ! k)) = toLowerCase (new_name newItem) \<and>
       (\<forall>j<k. toLowerCase (name (inven ! j)) \<noteq> toLowerCase (new_name newItem)) \<and>
       length (addItem uuid inven newItem) = length inven \<and>
       (\<forall>j<length inven. j \<noteq> k \<longrightarrow> addItem uuid inven newItem ! j = inven ! j) \<and>
       addItem uuid inven newItem ! k =
         (if new_untrackedAmount newItem
          then (inven ! k)\<lparr>untrackedAmount := Some True,
                           stockStatus := Some (new_stockStatus newItem)\<rparr>
          else if untrackedAmount (inven ! k) = Some True
          then (inven ! k)\<lparr>untrackedAmount := Some False, amount := new_amount newItem\<rparr>
          else (inven ! k)\<lparr>amount := amount (inven ! k) + new_amount newItem\<rparr>)) \<and>
     ((\<exists>i\<in>set inven. toLowerCase (name i) = toLowerCase (new_name newItem)) \<longrightarrow>
       (\<exists>k. matchIndex inven newItem = Some k)))"
proof -
  have blank: "trim (new_name newItem) = [] \<longrightarrow> addItem uuid inven newItem = inven"
    by (simp add: addItem_def)
  have full:
    "((\<forall>i\<in>set inven. toLowerCase (name i) \<noteq> toLowerCase (new_name newItem)) \<longrightarrow>
       addItem uuid inven newItem = inven @ [created uuid newItem] \<and>
       ident (created uuid newItem) = uuid) \<and>
     (\<forall>k. matchIndex inven newItem = Some k \<longrightarrow>
       k < length inven \<and>
       toLowerCase (name (inven ! k)) = toLowerCase (new_name newItem) \<and>
       (\<forall>j<k. toLowerCase (name (inven ! j)) \<noteq> toLowerCase (new_name newItem)) \<and>
       length (addItem uuid inven newItem) = length inven \<and>
       (\<forall>j<length inven. j \<noteq> k \<longrightarrow> addItem uuid inven newItem ! j = inven ! j) \<and>
       addItem uuid inven newItem ! k =
         (if new_untrackedAmount newItem
          then (inven ! k)\<lparr>untrackedAmount := Some True,
                           stockStatus := Some (new_stockStatus newItem)\<rparr>
          else if untrackedAmount (inven ! k) = Some True
          then (inven ! k)\<lparr>untrackedAmount := Some False, amount := new_amount newItem\<rparr>
          else (inven ! k)\<lparr>amount := amount (inven ! k) + new_amount newItem\<rparr>)) \<and>
     ((\<exists>i\<in>set inven. toLowerCase (name i) = toLowerCase (new_name newItem)) \<longrightarrow>
       (\<exists>k. matchIndex inven newItem = Some k))"
    if assms: "trim (new_name newItem) \<noteq> []"
  proof -
    have none: "addItem uuid inven newItem = inven @ [created uuid newItem] \<and>
         ident (created uuid newItem) = uuid"
      if "\<forall>i\<in>set inven. toLowerCase (name i) \<noteq> toLowerCase (new_name newItem)"
    proof -
      from that have "matchIndex inven newItem = None"
        by (simp add: matchIndex_def findIndex_None)
      with assms show ?thesis by (simp add: addItem_def created_def)
    qed
    have some: "k < length inven \<and>
         toLowerCase (name (inven ! k)) = toLowerCase (new_name newItem) \<and>
         (\<forall>j<k. toLowerCase (name (inven ! j)) \<noteq> toLowerCase (new_name newItem)) \<and>
         length (addItem uuid inven newItem) = length inven \<and>
         (\<forall>j<length inven. j \<noteq> k \<longrightarrow> addItem uuid inven newItem ! j = inven ! j) \<and>
         addItem uuid inven newItem ! k =
           (if new_untrackedAmount newItem
            then (inven ! k)\<lparr>untrackedAmount := Some True,
                             stockStatus := Some (new_stockStatus newItem)\<rparr>
            else if untrackedAmount (inven ! k) = Some True
            then (inven ! k)\<lparr>untrackedAmount := Some False, amount := new_amount newItem\<rparr>
            else (inven ! k)\<lparr>amount := amount (inven ! k) + new_amount newItem\<rparr>)"
      if k: "matchIndex inven newItem = Some k" for k
    proof -
      from findIndex_Some [OF k [unfolded matchIndex_def]]
      have f: "k < length inven"
        "toLowerCase (name (inven ! k)) = toLowerCase (new_name newItem)"
        "\<forall>j<k. toLowerCase (name (inven ! j)) \<noteq> toLowerCase (new_name newItem)"
        by simp_all
      have r: "addItem uuid inven newItem = inven[k := mergeItem newItem (inven ! k)]"
        using assms k by (simp add: addItem_def)
      have "length (addItem uuid inven newItem) = length inven" by (simp add: r)
      moreover have "\<forall>j<length inven. j \<noteq> k \<longrightarrow> addItem uuid inven newItem ! j = inven ! j"
        by (simp add: r)
      moreover have "addItem uuid inven newItem ! k =
           (if new_untrackedAmount newItem
            then (inven ! k)\<lparr>untrackedAmount := Some True,
                             stockStatus := Some (new_stockStatus newItem)\<rparr>
            else if untrackedAmount (inven ! k) = Some True
            then (inven ! k)\<lparr>untrackedAmount := Some False, amount := new_amount newItem\<rparr>
            else (inven ! k)\<lparr>amount := amount (inven ! k) + new_amount newItem\<rparr>)"
        using f(1) by (simp add: r mergeItem_def)
      ultimately show ?thesis using f by blast
    qed
    have ex: "\<exists>k. matchIndex inven newItem = Some k"
      if "\<exists>i\<in>set inven. toLowerCase (name i) = toLowerCase (new_name newItem)"
    proof -
      from that have "matchIndex inven newItem \<noteq> None"
        by (simp add: matchIndex_def findIndex_None)
      then show ?thesis by auto
    qed
    from none some ex show ?thesis by blast
  qed
  from blank full show ?thesis by blast
qed

theorem add_or_merge_witness:
  "trim (new_name avocadoForm) \<noteq> [] \<and>
   matchIndex (inventory INITIAL_DATA) avocadoForm = Some 1 \<and>
   length (addItem ''u'' (inventory INITIAL_DATA) avocadoForm) = 2 \<and>
   addItem ''u'' (inventory INITIAL_DATA) avocadoForm ! 1 =
     \<lparr>ident = ''inv2'', name = ''Avocado'', amount = 5, unit = ''pcs'',
      category = Some ''Produce'', untrackedAmount = None, stockStatus = None\<rparr>"
proof -
  have h1: "trim (new_name avocadoForm) \<noteq> []"
    by (simp add: trim_def avocadoForm_def is_space_def)
  have h2: "matchIndex (inventory INITIAL_DATA) avocadoForm = Some 1"
    by (simp add: matchIndex_def INITIAL_DATA_def avocadoForm_def toLowerCase_def
        lower_char_Char)
  have h3: "inventory INITIAL_DATA ! Suc 0 =
     \<lparr>ident = ''inv2'', name = ''Avocado'', amount = 2, unit = ''pcs'',
      category = Some ''Produce'', untrackedAmount = None, stockStatus = None\<rparr>"
    by (simp add: INITIAL_DATA_def)
  have h4: "length (inventory INITIAL_DATA) = 2" by (simp add: INITIAL_DATA_def)
  have h5: "\<not> new_untrackedAmount avocadoForm" "new_amount avocadoForm = 3"
    by (simp_all add: avocadoForm_def)
  from add_or_merge [of avocadoForm "''u''" "inventory INITIAL_DATA"] h1 h2
  have "length (addItem ''u'' (inventory INITIAL_DATA) avocadoForm) =
      length (inventory INITIAL_DATA) \<and>
    addItem ''u'' (inventory INITIAL_DATA) avocadoForm ! 1 =
         (if new_untrackedAmount avocadoForm
          then (inventory INITIAL_DATA ! 1)\<lparr>untrackedAmount := Some True,
                           stockStatus := Some (new_stockStatus avocadoForm)\<rparr>
          else if untrackedAmount (inventory INITIAL_DATA ! 1) = Some True
          then (inventory INITIAL_DATA ! 1)\<lparr>untrackedAmount := Some False,
                 amount := new_amount avocadoForm\<rparr>
          else (inventory INITIAL_DATA ! 1)\<lparr>amount := amount (inventory INITIAL_DATA ! 1)
                 + new_amount avocadoForm\<rparr>)"
    by blast
  with h1 h2 show ?thesis by (simp add: h3 h4 h5)
qed

text \<open>The claim as stated fails: submitting the form with an empty name matches no item
  and appends nothing.\<close>

theorem add_or_merge_counterexample:
  "matchIndex (inventory INITIAL_DATA) emptyForm = None \<and>
   addItem ''u'' (inventory INITIAL_DATA) emptyForm = inventory INITIAL_DATA \<and>
   length (addItem ''u'' (inventory INITIAL_DATA) emptyForm) = 2"
  by (simp add: matchIndex_def addItem_def trim_def emptyForm_def INITIAL_DATA_def
      toLowerCase_def)

subsection \<open>Cookability\<close>

lemma checkReq_append:
  "checkReq inven missing req =
     missing @ (if optional req \<noteq> Some True \<and> isMissing inven req then [name req] else [])"
  by (simp add: checkReq_def isMissing_def split: option.splits)

lemma foldl_checkReq:
  "foldl (checkReq inven) missing reqs =
     missing @ map name (filter (\<lambda>req. optional req \<noteq> Some True \<and> isMissing inven req) reqs)"
proof (induction reqs arbitrary: missing)
  case Nil
  show ?case by simp
next
  case (Cons req reqs)
  show ?case using Cons [of "checkReq inven missing req"] by (simp add: checkReq_append)
qed

lemma find_map: "find P (map f xs) = map_option f (find (\<lambda>x. P (f x)) xs)"
  by (induction xs) auto

lemma isMissing_flags:
  "isMissing (map (\<lambda>i. i\<lparr>untrackedAmount := u i, stockStatus := s i\<rparr>) inven) req =
     isMissing inven req"
  by (simp add: isMissing_def find_map split: option.splits)

text \<open>
  Claim C6. The check returns exactly the names, in recipe order, of the ingredients that
  are not optional and for which no inventory item matches the name up to case or the
  first matching item holds less than the required amount; the recipe can be cooked
  exactly when that list is empty; and the result does not depend on the untracked flags
  and stock statuses of the inventory, only on the numeric amounts.
\<close>

theorem cookability:
  "checkCookability recipe inven = missingNames recipe inven \<and>
   (canCook recipe inven \<longleftrightarrow> missingNames recipe inven = []) \<and>
   checkCookability recipe (map (\<lambda>i. i\<lparr>untrackedAmount := u i, stockStatus := s i\<rparr>) inven) =
     checkCookability recipe inven"
proof -
  have a: "checkCookability recipe stock = missingNames recipe stock" for stock
    by (simp add: checkCookability_def missingNames_def foldl_checkReq)
  have b: "missingNames recipe (map (\<lambda>i. i\<lparr>untrackedAmount := u i, stockStatus := s i\<rparr>) inven) =
      missingNames recipe inven"
    by (simp add: missingNames_def isMissing_flags)
  show ?thesis by (simp add: a b canCook_def)
qed

theorem cookability_witness:
  "untrackedAmount avocadoZero = Some True \<and> stockStatus avocadoZero = Some InStock \<and>
   checkCookability toast [avocadoZero] = [''Sourdough Bread'', ''Avocado'', ''Red Pepper Flakes''] \<and>
   \<not> canCook toast [avocadoZero] \<and>
   checkCookability toast (inventory INITIAL_DATA) = [''Red Pepper Flakes'']"
proof -
  have m1: "missingNames toast [avocadoZero] =
      [''Sourdough Bread'', ''Avocado'', ''Red Pepper Flakes'']"
    by (simp add: missingNames_def isMissing_def toast_def avocadoZero_def toLowerCase_def
        lower_char_Char)
  have m2: "missingNames toast (inventory INITIAL_DATA) = [''Red Pepper Flakes'']"
    by (simp add: missingNames_def isMissing_def toast_def INITIAL_DATA_def toLowerCase_def
        lower_char_Char)
  from cookability [of toast "[avocadoZero]"] m1
  have c1: "checkCookability toast [avocadoZero] =
      [''Sourdough Bread'', ''Avocado'', ''Red Pepper Flakes'']"
    "\<not> canCook toast [avocadoZero]" by simp_all
  from cookability [of toast "inventory INITIAL_DATA"] m2
  have c2: "checkCookability toast (inventory INITIAL_DATA) = [''Red Pepper Flakes'']" by simp
  from c1 c2 show ?thesis by (simp add: avocadoZero_def)
qed

subsection \<open>Deleting a category\<close>

lemma remove_category_effect:
  "(1 < length (categories st) \<longrightarrow>
      fst (removeCategory st c) = None \<and>
      categories (snd (removeCategory st c)) = filter (\<lambda>x. x \<noteq> c) (categories st) \<and>
      c \<notin> set (categories (snd (removeCategory st c))) \<and>
      set (categories (snd (removeCategory st c))) = set (categories st) - {c} \<and>
      customTags (snd (removeCategory st c)) = customTags st \<and>
      inventory (snd (removeCategory st c)) =
        map (\<lambda>i. i\<lparr>category := (if category i = Some c then Some ''Other'' else category i)\<rparr>)
          (inventory st) \<and>
      recipes (snd (removeCategory st c)) =
        map (\<lambda>r. r\<lparr>ingredients :=
              map (\<lambda>i. i\<lparr>category := (if category i = Some c then Some ''Other'' else category i)\<rparr>)
                (ingredients r)\<rparr>) (recipes st)) \<and>
   (length (categories st) \<le> 1 \<longrightarrow>
      removeCategory st c = (Some ''You must have at least one category.'', st)) \<and>
   (categories (snd (removeCategory st c)) \<noteq> [] \<longleftrightarrow>
      categories st \<noteq> [] \<and>
      (length (categories st) \<le> 1 \<or> (\<exists>x\<in>set (categories st). x \<noteq> c)))"
proof -
  have many: "removeCategory st c =
      (None, st\<lparr>categories := filter (\<lambda>x. x \<noteq> c) (categories st),
                recipes := map (\<lambda>r. r\<lparr>ingredients := map (reassign c) (ingredients r)\<rparr>)
                             (recipes st),
                inventory := map (reassign c) (inventory st)\<rparr>)"
    if "1 < length (categories st)"
    using that by (simp add: removeCategory_def)
  have few: "removeCategory st c = (Some ''You must have at least one category.'', st)"
    if "length (categories st) \<le> 1"
    using that by (simp add: removeCategory_def)
  have r: "reassign c = (\<lambda>i. i\<lparr>category := (if category i = Some c then Some ''Other''
      else category i)\<rparr>)" for c :: string
    by (rule ext) (simp add: reassign_def)
  have r': "reassign c = (\<lambda>i :: RecipeIngredient. i\<lparr>category := (if category i = Some c
      then Some ''Other'' else category i)\<rparr>)" for c :: string
    by (rule ext) (simp add: reassign_def)
  have p1: "fst (removeCategory st c) = None \<and>
      categories (snd (removeCategory st c)) = filter (\<lambda>x. x \<noteq> c) (categories st) \<and>
      c \<notin> set (categories (snd (removeCategory st c))) \<and>
      set (categories (snd (removeCategory st c))) = set (categories st) - {c} \<and>
      customTags (snd (removeCategory st c)) = customTags st \<and>
      inventory (snd (removeCategory st c)) =
        map (\<lambda>i. i\<lparr>category := (if category i = Some c then Some ''Other'' else category i)\<rparr>)
          (inventory st) \<and>
      recipes (snd (removeCategory st c)) =
        map (\<lambda>r. r\<lparr>ingredients :=
              map (\<lambda>i. i\<lparr>category := (if category i = Some c then Some ''Other'' else category i)\<rparr>)
                (ingredients r)\<rparr>) (recipes st)"
    if "1 < length (categories st)"
    unfolding many [OF that] r r' by auto
  have p3: "categories (snd (removeCategory st c)) \<noteq> [] \<longleftrightarrow>
      categories st \<noteq> [] \<and>
      (length (categories st) \<le> 1 \<or> (\<exists>x\<in>set (categories st). x \<noteq> c))"
  proof (cases "1 < length (categories st)")
    case True
    then have "categories st \<noteq> []" by auto
    with True show ?thesis by (auto simp: many [OF True] filter_empty_conv)
  next
    case False
    then have "length (categories st) \<le> 1" by simp
    from few [OF this] this show ?thesis by simp
  qed
  from p1 few p3 show ?thesis by blast
qed

text \<open>
  Claim C7. With more than one category the deletion removes the category and moves its
  ingredients and inventory items to \<open>Other\<close>, and with at most one category it is
  refused with the warning, as the lemma above states. The consequence that the claim
  draws, a category list that stays non-empty, is what the guard and its warning are
  there for, and the code misses it: a list of length two that holds one category twice
  passes the guard, no warning is shown, and the deletion leaves no category at all.
\<close>

theorem remove_category_duplicates:
  "categories twiceDairy = [''Dairy'', ''Dairy''] \<and>
   categories twiceDairy \<noteq> [] \<and>
   fst (removeCategory twiceDairy ''Dairy'') = None \<and>
   categories (snd (removeCategory twiceDairy ''Dairy'')) = []"
  by (simp add: removeCategory_def twiceDairy_def)

subsection \<open>Loading the stored document\<close>

lemma orDefault_getProp:
  "getProp v k = Inr x \<Longrightarrow> orDefault x d = fieldOr v k d"
  by (cases v) (auto simp: orDefault_def fieldOr_def present_def split: option.splits)

lemma tryParse_value:
  assumes "parse data = Inr v"
  shows "tryParse parse data = Inl TypeError \<and> v = JNull \<or>
     tryParse parse data =
       Inr \<lparr>l_recipes = fieldOr v ''recipes'' (JArr []),
            l_inventory = fieldOr v ''inventory'' (JArr []),
            l_customTags = fieldOr v ''customTags'' (JArr (map JStr DEFAULT_TAGS)),
            l_categories = fieldOr v ''categories'' (JArr (map JStr DEFAULT_CATEGORIES))\<rparr>"
proof (cases "v = JNull")
  case True
  with assms show ?thesis by (simp add: tryParse_def)
next
  case False
  then have g: "getProp v k = Inr (case v of JObj kvs \<Rightarrow> map_of kvs k | _ \<Rightarrow> None)" for k
    by (cases v) simp_all
  show ?thesis
    using assms by (simp add: tryParse_def g orDefault_getProp [OF g])
qed

lemma fieldOr_JNull: "fieldOr JNull k d = d"
  by (simp add: fieldOr_def present_def)

text \<open>
  Claim C8. The loader always returns a state and never an exception. Without a stored
  document, with an empty one, and when parsing fails, the state is the default aggregate.
  When the document parses to a value \<open>v\<close>, each of the four fields is the truthy value
  that \<open>v\<close> holds under its key, if \<open>v\<close> is an object that has one, and the default of
  that field alone otherwise.
\<close>

theorem load_total:
  "(\<exists>s. loadFromLocalStorage parse stored = Inr s) \<and>
   loadFromLocalStorage parse None = Inr defaultLoaded \<and>
   loadFromLocalStorage parse (Some []) = Inr defaultLoaded \<and>
   (\<forall>data e. parse data = Inl e \<longrightarrow>
      loadFromLocalStorage parse (Some data) = Inr defaultLoaded) \<and>
   (\<forall>data v. data \<noteq> [] \<and> parse data = Inr v \<longrightarrow>
      loadFromLocalStorage parse (Some data) =
        Inr \<lparr>l_recipes = fieldOr v ''recipes'' (JArr []),
             l_inventory = fieldOr v ''inventory'' (JArr []),
             l_customTags = fieldOr v ''customTags'' (JArr (map JStr DEFAULT_TAGS)),
             l_categories = fieldOr v ''categories'' (JArr (map JStr DEFAULT_CATEGORIES))\<rparr>) \<and>
   defaultLoaded =
     \<lparr>l_recipes = JArr [], l_inventory = JArr [],
      l_customTags = JArr (map JStr [''Breakfast'', ''Lunch'', ''Dinner'', ''Snack'', ''Dessert'',
        ''Vegetarian'', ''Vegan'', ''Quick'']),
      l_categories = JArr (map JStr [''Produce'', ''Dairy'', ''Meat'', ''Bakery'', ''Frozen'',
        ''Pantry'', ''Beverages'', ''Household'', ''Other''])\<rparr>"
proof -
  have total: "\<exists>s. loadFromLocalStorage parse stored = Inr s"
    by (simp add: loadFromLocalStorage_def split: option.splits sum.splits)
  have none: "loadFromLocalStorage parse None = Inr defaultLoaded"
    "loadFromLocalStorage parse (Some []) = Inr defaultLoaded"
    by (simp_all add: loadFromLocalStorage_def)
  have fail: "loadFromLocalStorage parse (Some data) = Inr defaultLoaded"
    if "parse data = Inl e" for data e
    using that by (simp add: loadFromLocalStorage_def tryParse_def)
  have ok: "loadFromLocalStorage parse (Some data) =
        Inr \<lparr>l_recipes = fieldOr v ''recipes'' (JArr []),
             l_inventory = fieldOr v ''inventory'' (JArr []),
             l_customTags = fieldOr v ''customTags'' (JArr (map JStr DEFAULT_TAGS)),
             l_categories = fieldOr v ''categories'' (JArr (map JStr DEFAULT_CATEGORIES))\<rparr>"
    if "data \<noteq> []" "parse data = Inr v" for data v
    using tryParse_value [of parse data v] that
    by (auto simp: loadFromLocalStorage_def fieldOr_JNull defaultLoaded_def)
  have dflt: "defaultLoaded =
     \<lparr>l_recipes = JArr [], l_inventory = JArr [],
      l_customTags = JArr (map JStr [''Breakfast'', ''Lunch'', ''Dinner'', ''Snack'', ''Dessert'',
        ''Vegetarian'', ''Vegan'', ''Quick'']),
      l_categories = JArr (map JStr [''Produce'', ''Dairy'', ''Meat'', ''Bakery'', ''Frozen'',
        ''Pantry'', ''Beverages'', ''Household'', ''Other''])\<rparr>"
    by (simp add: defaultLoaded_def DEFAULT_TAGS_def DEFAULT_CATEGORIES_def)
  from total none fail ok dflt show ?thesis by blast
qed

theorem load_total_witness:
  "''{}'' \<noteq> [] \<and>
   loadFromLocalStorage (\<lambda>s. Inr partialDoc) (Some ''{}'') =
     Inr \<lparr>l_recipes = JArr [], l_inventory = JArr [],
          l_customTags = JArr (map JStr DEFAULT_TAGS),
          l_categories = JArr [JStr ''Spices'']\<rparr> \<and>
   loadFromLocalStorage (\<lambda>s. Inr JNull) (Some ''null'') = Inr defaultLoaded \<and>
   loadFromLocalStorage (\<lambda>s. Inl SyntaxError) (Some ''{'') = Inr defaultLoaded"
proof -
  have h1: "''{}'' \<noteq> [] \<and> (\<lambda>s :: string. Inr partialDoc :: js_error + json) ''{}'' = Inr partialDoc"
    by simp
  have h2: "''null'' \<noteq> [] \<and> (\<lambda>s :: string. Inr JNull :: js_error + json) ''null'' = Inr JNull"
    by simp
  have h3: "(\<lambda>s :: string. Inl SyntaxError :: js_error + json) ''{'' = Inl SyntaxError"
    by simp
  from load_total [of "\<lambda>s. Inr partialDoc" None] h1
  have a: "loadFromLocalStorage (\<lambda>s. Inr partialDoc) (Some ''{}'') =
        Inr \<lparr>l_recipes = fieldOr partialDoc ''recipes'' (JArr []),
             l_inventory = fieldOr partialDoc ''inventory'' (JArr []),
             l_customTags = fieldOr partialDoc ''customTags'' (JArr (map JStr DEFAULT_TAGS)),
             l_categories = fieldOr partialDoc ''categories'' (JArr (map JStr DEFAULT_CATEGORIES))\<rparr>"
    by blast
  from load_total [of "\<lambda>s. Inr JNull" None] h2
  have b: "loadFromLocalStorage (\<lambda>s. Inr JNull) (Some ''null'') =
        Inr \<lparr>l_recipes = fieldOr JNull ''recipes'' (JArr []),
             l_inventory = fieldOr JNull ''inventory'' (JArr []),
             l_customTags = fieldOr JNull ''customTags'' (JArr (map JStr DEFAULT_TAGS)),
             l_categories = fieldOr JNull ''categories'' (JArr (map JStr DEFAULT_CATEGORIES))\<rparr>"
    by blast
  from load_total [of "\<lambda>s. Inl SyntaxError" None] h3
  have c: "loadFromLocalStorage (\<lambda>s. Inl SyntaxError) (Some ''{'') = Inr defaultLoaded"
    by blast
  have f: "fieldOr partialDoc ''recipes'' (JArr []) = JArr []"
    "fieldOr partialDoc ''inventory'' (JArr []) = JArr []"
    "fieldOr partialDoc ''customTags'' (JArr (map JStr DEFAULT_TAGS)) = JArr (map JStr DEFAULT_TAGS)"
    "fieldOr partialDoc ''categories'' (JArr (map JStr DEFAULT_CATEGORIES)) = JArr [JStr ''Spices'']"
    by (simp_all add: fieldOr_def present_def partialDoc_def)
  from a b c show ?thesis by (simp add: f fieldOr_JNull defaultLoaded_def)
qed

subsection \<open>Start of the application\<close>

text \<open>
  Claim C9. When the loaded state has no recipes, the application starts from the built-in
  data (two recipes, two inventory items, the seed tags and categories) whatever else the
  loaded state holds; otherwise it starts from the loaded state.
\<close>

theorem startup_seeding:
  "(recipes saved = [] \<longrightarrow> initialState saved = INITIAL_DATA) \<and>
   (recipes saved \<noteq> [] \<longrightarrow> initialState saved = saved) \<and>
   length (recipes INITIAL_DATA) = 2 \<and> length (inventory INITIAL_DATA) = 2 \<and>
   customTags INITIAL_DATA = DEFAULT_TAGS \<and> categories INITIAL_DATA = DEFAULT_CATEGORIES"
  by (simp add: initialState_def INITIAL_DATA_def DEFAULT_TAGS_def DEFAULT_CATEGORIES_def)

theorem startup_seeding_witness:
  "recipes noRecipes = [] \<and> inventory noRecipes = [saltA] \<and>
   customTags noRecipes = [''Keto''] \<and> categories noRecipes = [''Spices''] \<and>
   initialState noRecipes = INITIAL_DATA \<and>
   map name (inventory (initialState noRecipes)) = [''Sourdough Bread'', ''Avocado''] \<and>
   customTags (initialState noRecipes) = DEFAULT_TAGS \<and>
   categories (initialState noRecipes) = DEFAULT_CATEGORIES"
proof -
  have h: "recipes noRecipes = []" by (simp add: noRecipes_def)
  from startup_seeding [of noRecipes] h
  have a: "initialState noRecipes = INITIAL_DATA" "customTags INITIAL_DATA = DEFAULT_TAGS"
    "categories INITIAL_DATA = DEFAULT_CATEGORIES" by blast+
  have b: "map name (inventory INITIAL_DATA) = [''Sourdough Bread'', ''Avocado'']"
    by (simp add: INITIAL_DATA_def)
  from h a b show ?thesis by (simp add: noRecipes_def)
qed


end
